theory Spec2Isabelle
  imports Complex_Main
begin

section \<open>JavaScript values used by the service\<close>

text \<open>
  A JavaScript string is modelled as a \<^typ>\<open>string\<close>: one \<^typ>\<open>char\<close> per UTF-16 code
  unit, so the model covers the strings whose code units lie in \<open>0..255\<close>; \<open>length\<close> is
  then the \<open>.length\<close> of the source.

  A value thrown by an awaited call is either an \<open>Error\<close> object, of which only the
  message is ever read, or some other value (\<open>error instanceof Error\<close> is false).
\<close>

datatype thrown = Error (message: string) | NonError

text \<open>
  The catch blocks of the service read
  \<^verbatim>\<open>const message = error instanceof Error ? error.message : 'Unknown error';
throw new Error(`<prefix>${message}`);\<close>
\<close>

definition rethrow :: "string \<Rightarrow> thrown \<Rightarrow> thrown" where
  "rethrow prefix e =
     Error (prefix @ (case e of Error m \<Rightarrow> m | NonError \<Rightarrow> ''Unknown error''))"

subsection \<open>Numbers\<close>

text \<open>
  Counts are array lengths, so they are integers. The service leaves the integers in
  \<open>partitionsCount / sampleTopics.length\<close> followed by a product and \<open>Math.round\<close>, in the
  scale factor of the broker histogram, and in the products with \<open>Math.random()\<close> of the
  placeholder metrics. A finite double is a rational number; an arithmetic operation of
  JavaScript is the exact operation followed by rounding to the nearest double (53
  significant bits, ties to even). The operands the service gives these operations are
  array lengths, their quotients and random numbers below 1, far from the overflow and
  the subnormal range, so the exponent is left unbounded.
\<close>

function bitlen :: "int \<Rightarrow> nat" where
  "bitlen n = (if n \<le> 0 then 0 else Suc (bitlen (n div 2)))"
  by pat_completeness auto
termination
  by (relation "measure nat") auto

declare bitlen.simps [simp del]

definition pow2 :: "int \<Rightarrow> rat" where
  "pow2 k = (if 0 \<le> k then 2 ^ nat k else 1 / 2 ^ nat (- k))"

text \<open>\<open>binade a\<close> is \<open>\<lfloor>log\<^sub>2 a\<rfloor>\<close> for \<open>a > 0\<close>.\<close>

definition binade :: "rat \<Rightarrow> int" where
  "binade a =
     (let (p, q) = quotient_of a;
          d = int (bitlen p) - int (bitlen q)
      in if pow2 d \<le> a then d else d - 1)"

text \<open>Rounding to the nearest integer, ties to the even one.\<close>

definition rne :: "rat \<Rightarrow> int" where
  "rne r =
     (let f = \<lfloor>r\<rfloor>; d = r - of_int f
      in if d < 1 / 2 then f
         else if 1 / 2 < d then f + 1
         else if even f then f else f + 1)"

definition fl :: "rat \<Rightarrow> rat" where
  "fl x =
     (if x = 0 then 0
      else let a = \<bar>x\<bar>; e = binade a - 52
           in sgn x * of_int (rne (a / pow2 e)) * pow2 e)"

definition js_div :: "rat \<Rightarrow> rat \<Rightarrow> rat" where
  "js_div x y = fl (x / y)"

definition js_mul :: "rat \<Rightarrow> rat \<Rightarrow> rat" where
  "js_mul x y = fl (x * y)"

text \<open>\<open>Math.round\<close> rounds to the nearest integer, a tie towards \<open>+\<infinity>\<close>.\<close>

definition Math_round :: "rat \<Rightarrow> int" where
  "Math_round x = \<lfloor>x + 1 / 2\<rfloor>"

definition Math_floor :: "rat \<Rightarrow> int" where
  "Math_floor x = \<lfloor>x\<rfloor>"

subsection \<open>Strings\<close>

text \<open>\<open>s.split(',')\<close>, \<open>xs.join(',')\<close>, \<open>s.trim()\<close>, \<open>s.toLowerCase()\<close>, \<open>s.includes(t)\<close>.\<close>

fun split_comma :: "string \<Rightarrow> string list" where
  "split_comma [] = [ [] ]"
| "split_comma (c # cs) =
     (if c = CHR '','' then [] # split_comma cs
      else (case split_comma cs of [] \<Rightarrow> [ [c] ] | w # ws \<Rightarrow> (c # w) # ws))"

fun join_comma :: "string list \<Rightarrow> string" where
  "join_comma [] = []"
| "join_comma [x] = x"
| "join_comma (x # y # ys) = x @ '','' @ join_comma (y # ys)"

text \<open>
  The white space and line terminators of ECMAScript among the code units up to 255:
  TAB, LF, VT, FF, CR, SP and NBSP.
\<close>

definition js_whitespace :: "char \<Rightarrow> bool" where
  "js_whitespace c = ((of_char c :: nat) \<in> {9, 10, 11, 12, 13, 32, 160})"

definition trim :: "string \<Rightarrow> string" where
  "trim s = rev (dropWhile js_whitespace (rev (dropWhile js_whitespace s)))"

definition toLowerCase_char :: "char \<Rightarrow> char" where
  "toLowerCase_char c =
     (let n = (of_char c :: nat)
      in if (65 \<le> n \<and> n \<le> 90) \<or> (192 \<le> n \<and> n \<le> 222 \<and> n \<noteq> 215)
         then char_of (n + 32) else c)"

definition toLowerCase :: "string \<Rightarrow> string" where
  "toLowerCase s = map toLowerCase_char s"

fun js_includes :: "string \<Rightarrow> string \<Rightarrow> bool" where
  "js_includes [] sub = (sub = [])"
| "js_includes (c # cs) sub = (take (length sub) (c # cs) = sub \<or> js_includes cs sub)"

text \<open>The decimal numeral of an integer, as a template literal prints it.\<close>

definition digit :: "nat \<Rightarrow> char" where
  "digit n = ''0123456789'' ! n"

fun digits :: "nat \<Rightarrow> string" where
  "digits n = (if n < 10 then [digit n] else digits (n div 10) @ [digit (n mod 10)])"

declare digits.simps [simp del]

definition show_int :: "int \<Rightarrow> string" where
  "show_int i = (if i < 0 then CHR ''-'' # digits (nat (- i)) else digits (nat i))"

text \<open>A string between single quotes, as in \<^verbatim>\<open>'${topicName}'\<close>.\<close>

definition quoted :: "string \<Rightarrow> string" where
  "quoted s = [CHR 0x27] @ s @ [CHR 0x27]"

section \<open>The admin client, as the service sees it\<close>

text \<open>Responses of \<open>describeCluster\<close> and \<open>fetchTopicMetadata\<close> (types of KafkaJS).\<close>

record BrokerMetadata =
  nodeId :: int
  host :: string
  port :: int
  rack :: "string option"

record ClusterMetadata =
  brokers :: "BrokerMetadata list"
  controller :: "int option"
  clusterId :: string

record PartitionMetadata =
  partitionId :: int
  leader :: int
  replicas :: "int list"
  isr :: "int list"

record ITopicMetadata =
  name :: string
  partitions :: "PartitionMetadata list"

record ConfigEntry =
  configName :: string
  configValue :: string

record ConfigResource =
  resourceName :: string
  configEntries :: "ConfigEntry list"

text \<open>The argument of \<open>createTopics\<close>, as \<open>createTopic\<close> builds it.\<close>

record ITopicConfig =
  topic :: string
  numPartitions :: int
  replicationFactor :: int
  topicConfigEntries :: "(string \<times> string) list"

record CreateTopicsOptions =
  topics :: "ITopicConfig list"
  validateOnly :: bool
  waitForLeaders :: bool
  timeout :: int

text \<open>
  Every call of a method of the admin client is recorded, in the order of the calls, with
  the arguments the claims are about.
\<close>

datatype rpc =
    AdminConnect
  | AdminDisconnect
  | DescribeCluster
  | ListTopics
  | FetchTopicMetadata "string list"
  | DescribeConfigs "string list"
  | CreateTopics CreateTopicsOptions
  | DeleteTopics "string list" int
  | AlterConfigs string "(string \<times> string) list"

text \<open>
  The admin client and the cluster behind it are outside the repository. They are a
  parameter of every operation: what each call answers, \<open>Inl\<close> a thrown value (for a call
  that returns nothing, \<open>Some\<close> a thrown value). \<open>new_Kafka\<close> and \<open>kafka_admin\<close> are the
  two constructors of the client library, which \<open>connectWithConfig\<close> calls inside its
  \<open>try\<close>. \<open>random k\<close> is the result of the \<open>k\<close>-th call of \<open>Math.random\<close> within an
  operation, \<open>now\<close> is \<open>new Date().toISOString()\<close>, and \<open>listTopics_rejects_first\<close> says
  which rejection \<open>Promise.all\<close> sees first when both of its calls fail.
\<close>

record World =
  new_Kafka :: "thrown option"
  kafka_admin :: "thrown option"
  admin_connect :: "thrown option"
  admin_disconnect :: "thrown option"
  describeCluster :: "thrown + ClusterMetadata"
  listTopics :: "thrown + string list"
  listTopics_rejects_first :: bool
  fetchTopicMetadata :: "string list \<Rightarrow> thrown + ITopicMetadata list"
  describeConfigs :: "string list \<Rightarrow> thrown + ConfigResource list"
  createTopics :: "CreateTopicsOptions \<Rightarrow> thrown option"
  deleteTopics :: "string list \<Rightarrow> thrown option"
  alterConfigs :: "string \<Rightarrow> (string \<times> string) list \<Rightarrow> thrown option"
  random :: "nat \<Rightarrow> rat"
  now :: string

section \<open>The service\<close>

datatype brokers_config = BrokerList "string list" | BrokersFunction

record RetryOptions =
  initialRetryTime :: int
  retries :: int

record KafkaConfig =
  clientId :: "string option"
  config_brokers :: brokers_config
  connectionTimeout :: int
  requestTimeout :: int
  retry :: RetryOptions

text \<open>
  The fields of \<open>class KafkaService\<close>. The two client objects are identified by the
  configuration they were built from.
\<close>

datatype Kafka = Kafka KafkaConfig
datatype Admin = Admin KafkaConfig

record KafkaService =
  kafka :: "Kafka option"
  admin :: "Admin option"
  isConnected :: bool
  connectionConfig :: "KafkaConfig option"

definition initial :: KafkaService where
  "initial = \<lparr>kafka = None, admin = None, isConnected = False, connectionConfig = None\<rparr>"

definition not_connected :: thrown where
  "not_connected = Error ''Not connected to Kafka cluster''"

subsection \<open>Connecting and disconnecting\<close>

text \<open>
  \<open>disconnect\<close>: the \<open>try\<close> closes the admin client when there is one and clears the
  fields; when the close throws, the \<open>catch\<close> clears all four fields.
\<close>

definition disconnect :: "World \<Rightarrow> KafkaService \<Rightarrow> rpc list \<times> KafkaService" where
  "disconnect env s =
     (case admin s of
        Some a \<Rightarrow>
          (case admin_disconnect env of
             None \<Rightarrow>
               ([AdminDisconnect],
                s\<lparr>admin := None, kafka := None, isConnected := False,
                  connectionConfig := None\<rparr>)
           | Some e \<Rightarrow>
               ([AdminDisconnect],
                s\<lparr>kafka := None, admin := None, isConnected := False,
                  connectionConfig := None\<rparr>))
      | None \<Rightarrow>
          ([], s\<lparr>kafka := None, isConnected := False, connectionConfig := None\<rparr>))"

definition parseKafkaError :: "thrown \<Rightarrow> string" where
  "parseKafkaError e =
     (case e of
        NonError \<Rightarrow> ''Unknown Kafka connection error''
      | Error m \<Rightarrow>
          (let msg = toLowerCase m in
           if js_includes msg ''econnrefused'' \<or> js_includes msg ''connection refused'' then
             ''Cannot connect to Kafka brokers. Please verify Kafka is running and bootstrap servers are correct.''
           else if js_includes msg ''timeout'' \<or> js_includes msg ''timed out'' then
             ''Connection timeout. Kafka brokers may be unreachable or overloaded.''
           else if js_includes msg ''coordinator not available'' then
             ''Kafka coordinator not available. The cluster may be starting up.''
           else if js_includes msg ''broker not available'' then
             ''Kafka brokers are not available. Check if your Kafka cluster is running.''
           else ''Kafka connection failed: '' @ m))"

text \<open>
  \<open>connectWithConfig\<close>: the result is the calls made, the error thrown if any, and the
  fields afterwards. Each of the three steps after the first assignment may throw; the
  \<open>catch\<close> then runs \<open>disconnect\<close> on the fields as they are at that point.
\<close>

definition connect_failed ::
  "World \<Rightarrow> rpc list \<Rightarrow> KafkaService \<Rightarrow> thrown \<Rightarrow> rpc list \<times> thrown option \<times> KafkaService" where
  "connect_failed env calls s e =
     (let (calls', s') = disconnect env s
      in (calls @ calls', Some (Error (parseKafkaError e)), s'))"

definition connectWithConfig ::
  "World \<Rightarrow> KafkaService \<Rightarrow> KafkaConfig \<Rightarrow> rpc list \<times> thrown option \<times> KafkaService" where
  "connectWithConfig env s config =
     (let s1 = s\<lparr>connectionConfig := Some config\<rparr> in
      case new_Kafka env of
        Some e \<Rightarrow> connect_failed env [] s1 e
      | None \<Rightarrow>
          (let s2 = s1\<lparr>kafka := Some (Kafka config)\<rparr> in
           case kafka_admin env of
             Some e \<Rightarrow> connect_failed env [] s2 e
           | None \<Rightarrow>
               (let s3 = s2\<lparr>admin := Some (Admin config)\<rparr> in
                case admin_connect env of
                  Some e \<Rightarrow> connect_failed env [AdminConnect] s3 e
                | None \<Rightarrow> ([AdminConnect], None, s3\<lparr>isConnected := True\<rparr>))))"

text \<open>\<open>connect(bootstrapServers, clientId = 'kafka-ui')\<close>; \<open>None\<close> is an omitted client id.\<close>

definition connect ::
  "World \<Rightarrow> KafkaService \<Rightarrow> string \<Rightarrow> string option \<Rightarrow>
     rpc list \<times> thrown option \<times> KafkaService" where
  "connect env s bootstrapServers clientId' =
     (let config =
            \<lparr>clientId = Some (case clientId' of None \<Rightarrow> ''kafka-ui'' | Some c \<Rightarrow> c),
             config_brokers = BrokerList (map trim (split_comma bootstrapServers)),
             connectionTimeout = 10000,
             requestTimeout = 30000,
             retry = \<lparr>initialRetryTime = 100, retries = 8\<rparr>\<rparr>
      in connectWithConfig env s config)"

definition isConnectionActive :: "KafkaService \<Rightarrow> bool" where
  "isConnectionActive s = (isConnected s \<and> kafka s \<noteq> None)"

record ConnectionInfo =
  info_brokers :: string
  info_clientId :: string

definition getConnectionInfo :: "KafkaService \<Rightarrow> ConnectionInfo option" where
  "getConnectionInfo s =
     (case connectionConfig s of
        None \<Rightarrow> None
      | Some c \<Rightarrow>
          Some \<lparr>info_brokers =
                  (case config_brokers c of
                     BrokerList bs \<Rightarrow> join_comma bs
                   | BrokersFunction \<Rightarrow> ''unknown''),
                info_clientId =
                  (case clientId c of
                     None \<Rightarrow> ''unknown''
                   | Some i \<Rightarrow> if i = [] then ''unknown'' else i)\<rparr>)"

text \<open>
  The fields are private: they change only in \<open>connectWithConfig\<close> (called by \<open>connect\<close>,
  and by \<open>initialize\<close> with the configuration of the environment) and in \<open>disconnect\<close>;
  the other operations leave them as they are. The two definitions above run a call to
  its end. A call is suspended at each \<open>await\<close>, where other calls see the fields as they
  are then and may run in between. The states the service can be seen in are those reached
  from the initial one by the synchronous blocks of the two methods, in any order:
  \<^item> line 120 alone, when \<open>new Kafka(config)\<close> throws;
  \<^item> lines 120 and 123, when \<open>this.kafka.admin()\<close> throws;
  \<^item> lines 120 to 126, the state at \<open>await this.admin.connect()\<close>;
  \<^item> line 131, after that \<open>await\<close>;
  \<^item> lines 182 to 184 of \<open>disconnect\<close>, when there is no admin client;
  \<^item> lines 180 to 184 after \<open>await this.admin.disconnect()\<close>, or lines 188 to 191 when the
    close threw: the same four fields cleared.
  At \<open>await this.admin.disconnect()\<close> itself the fields are unchanged.
\<close>

inductive observable :: "KafkaService \<Rightarrow> bool" where
  observable_initial: "observable initial"
| observable_config:
    "observable s \<Longrightarrow> observable (s\<lparr>connectionConfig := Some config\<rparr>)"
| observable_kafka:
    "observable s \<Longrightarrow>
       observable (s\<lparr>connectionConfig := Some config, kafka := Some (Kafka config)\<rparr>)"
| observable_connecting:
    "observable s \<Longrightarrow>
       observable (s\<lparr>connectionConfig := Some config, kafka := Some (Kafka config),
                     admin := Some (Admin config)\<rparr>)"
| observable_connected:
    "observable s \<Longrightarrow> observable (s\<lparr>isConnected := True\<rparr>)"
| observable_no_admin:
    "observable s \<Longrightarrow> admin s = None \<Longrightarrow>
       observable (s\<lparr>kafka := None, isConnected := False, connectionConfig := None\<rparr>)"
| observable_cleared:
    "observable s \<Longrightarrow>
       observable (s\<lparr>admin := None, kafka := None, isConnected := False,
                     connectionConfig := None\<rparr>)"

subsection \<open>getClusterOverview\<close>

datatype HealthStatus = healthy | warning | critical | unknown

record ClusterOverview =
  brokersOnline :: int
  brokersTotal :: int
  topicsCount :: int
  partitionsCount :: int
  consumerGroupsCount :: int
  messagesPerSecond :: int
  status :: HealthStatus

text \<open>
  The inner \<open>try\<close> of \<open>getClusterOverview\<close>: the partition count, from the metadata of the
  first 50 topics, and the calls it makes.
\<close>

definition count_partitions :: "ITopicMetadata list \<Rightarrow> int" where
  "count_partitions ts = foldl (\<lambda>total t. total + int (length (partitions t))) 0 ts"

definition samplePartitions :: "World \<Rightarrow> string list \<Rightarrow> rpc list \<times> int" where
  "samplePartitions env tps =
     (let sampleTopics = take 50 tps in
      if length sampleTopics > 0 then
        (case fetchTopicMetadata env sampleTopics of
           Inl e \<Rightarrow> ([FetchTopicMetadata sampleTopics], int (length tps) * 3)
         | Inr topicMetadata \<Rightarrow>
             (let partitionsCount = count_partitions topicMetadata in
              ([FetchTopicMetadata sampleTopics],
               if length tps > 50 then
                 (let avgPartitions =
                        js_div (of_int partitionsCount) (of_nat (length sampleTopics))
                  in Math_round (js_mul avgPartitions (of_nat (length tps))))
               else partitionsCount)))
      else ([], 0))"

definition getClusterOverview ::
  "World \<Rightarrow> KafkaService \<Rightarrow> rpc list \<times> (thrown + ClusterOverview)" where
  "getClusterOverview env s =
     (if admin s = None \<or> \<not> isConnected s then ([], Inl not_connected)
      else
        (case (describeCluster env, listTopics env) of
           (Inl e1, Inl e2) \<Rightarrow>
             ([DescribeCluster, ListTopics],
              Inl (rethrow ''Failed to fetch cluster overview: ''
                     (if listTopics_rejects_first env then e2 else e1)))
         | (Inl e1, Inr _) \<Rightarrow>
             ([DescribeCluster, ListTopics],
              Inl (rethrow ''Failed to fetch cluster overview: '' e1))
         | (Inr _, Inl e2) \<Rightarrow>
             ([DescribeCluster, ListTopics],
              Inl (rethrow ''Failed to fetch cluster overview: '' e2))
         | (Inr metadata, Inr tps) \<Rightarrow>
             (let brokersTotal = int (length (brokers metadata));
                  brokersOnline = int (length (brokers metadata));
                  topicsCount = int (length tps);
                  (calls, partitionsCount) = samplePartitions env tps
              in ([DescribeCluster, ListTopics] @ calls,
                  Inr \<lparr>brokersOnline = brokersOnline,
                       brokersTotal = brokersTotal,
                       topicsCount = topicsCount,
                       partitionsCount = partitionsCount,
                       consumerGroupsCount = 0,
                       messagesPerSecond = 0,
                       status = (if brokersOnline = brokersTotal then healthy else warning)\<rparr>))))"

subsection \<open>getBrokers\<close>

datatype BrokerStatus = online | offline | degraded

record BrokerMetrics =
  diskUsage :: int
  networkIn :: int
  networkOut :: int
  requestsPerSecond :: int

record Broker =
  broker_id :: int
  broker_host :: string
  broker_port :: int
  broker_rack :: "string option"
  broker_status :: BrokerStatus
  isController :: bool
  topicCount :: int
  partitionCount :: int
  broker_config :: "string \<rightharpoonup> string"
  broker_metrics :: BrokerMetrics

text \<open>
  \<open>brokerTopicCounts\<close> maps a broker id to its \<open>{topics, partitions}\<close> counters, here the
  pair \<open>(topics, partitions)\<close>. One sampled topic: every replica that is a known broker
  counts one partition and enters the topic's broker set (a list without repetition, in
  the order of insertion); then every broker of the set counts one topic.
\<close>

type_synonym counts = "int \<rightharpoonup> int \<times> int"

definition count_replica :: "counts \<times> int list \<Rightarrow> int \<Rightarrow> counts \<times> int list" where
  "count_replica acc brokerId =
     (case acc of (m, brokersForTopic) \<Rightarrow>
        (case m brokerId of
           Some (t, p) \<Rightarrow>
             (m(brokerId \<mapsto> (t, p + 1)),
              if brokerId \<in> set brokersForTopic then brokersForTopic
              else brokersForTopic @ [brokerId])
         | None \<Rightarrow> (m, brokersForTopic)))"

definition count_topic :: "counts \<Rightarrow> ITopicMetadata \<Rightarrow> counts" where
  "count_topic m tp =
     (let (m1, brokersForTopic) =
            foldl (\<lambda>acc partition. foldl count_replica acc (replicas partition))
              (m, []) (partitions tp)
      in foldl (\<lambda>m' brokerId.
                  case m' brokerId of
                    Some (t, p) \<Rightarrow> m'(brokerId \<mapsto> (t + 1, p))
                  | None \<Rightarrow> m')
           m1 brokersForTopic)"

definition scale_counts :: "rat \<Rightarrow> counts \<Rightarrow> counts" where
  "scale_counts scaleFactor m =
     (\<lambda>brokerId.
        map_option
          (\<lambda>(t, p). (Math_round (js_mul (of_int t) scaleFactor),
                      Math_round (js_mul (of_int p) scaleFactor)))
          (m brokerId))"

text \<open>
  The inner \<open>try\<close> of \<open>getBrokers\<close>. When \<open>listTopics\<close> or \<open>fetchTopicMetadata\<close> throws,
  the counters are still the empty object.
\<close>

definition brokerTopicCounts :: "World \<Rightarrow> ClusterMetadata \<Rightarrow> rpc list \<times> counts" where
  "brokerTopicCounts env metadata =
     (case listTopics env of
        Inl e \<Rightarrow> ([ListTopics], Map.empty)
      | Inr tps \<Rightarrow>
          if length tps > 0 then
            (let sampleTopics = take 20 tps in
             case fetchTopicMetadata env sampleTopics of
               Inl e \<Rightarrow> ([ListTopics, FetchTopicMetadata sampleTopics], Map.empty)
             | Inr topicMetadata \<Rightarrow>
                 (let m0 = foldl (\<lambda>m broker. m(nodeId broker \<mapsto> (0, 0)))
                             Map.empty (brokers metadata);
                      m1 = foldl count_topic m0 topicMetadata
                  in ([ListTopics, FetchTopicMetadata sampleTopics],
                      if length tps > length sampleTopics then
                        scale_counts
                          (js_div (of_nat (length tps)) (of_nat (length sampleTopics))) m1
                      else m1)))
          else ([ListTopics], Map.empty))"

definition mock_broker_metrics :: "World \<Rightarrow> nat \<Rightarrow> BrokerMetrics" where
  "mock_broker_metrics env k =
     \<lparr>diskUsage =
        Math_floor (js_mul (random env (4 * k)) 80) * 1024 * 1024 * 1024
          + 10 * 1024 * 1024 * 1024,
      networkIn = Math_floor (js_mul (random env (4 * k + 1)) 1000) * 1024,
      networkOut = Math_floor (js_mul (random env (4 * k + 2)) 800) * 1024,
      requestsPerSecond = Math_floor (js_mul (random env (4 * k + 3)) 5000) + 1000\<rparr>"

definition to_broker ::
  "World \<Rightarrow> ClusterMetadata \<Rightarrow> counts \<Rightarrow> nat \<times> BrokerMetadata \<Rightarrow> Broker" where
  "to_broker env metadata m kb =
     (case kb of (k, broker) \<Rightarrow>
        \<lparr>broker_id = nodeId broker,
         broker_host = host broker,
         broker_port = port broker,
         broker_rack = (case rack broker of
                          None \<Rightarrow> None
                        | Some r \<Rightarrow> if r = [] then None else Some r),
         broker_status = online,
         isController = (Some (nodeId broker) = controller metadata),
         topicCount = (case m (nodeId broker) of None \<Rightarrow> 0 | Some (t, p) \<Rightarrow> t),
         partitionCount = (case m (nodeId broker) of None \<Rightarrow> 0 | Some (t, p) \<Rightarrow> p),
         broker_config = Map.empty,
         broker_metrics = mock_broker_metrics env k\<rparr>)"

definition getBrokers :: "World \<Rightarrow> KafkaService \<Rightarrow> rpc list \<times> (thrown + Broker list)" where
  "getBrokers env s =
     (if admin s = None \<or> \<not> isConnected s then ([], Inl not_connected)
      else
        (case describeCluster env of
           Inl e \<Rightarrow> ([DescribeCluster], Inl (rethrow ''Failed to fetch brokers: '' e))
         | Inr metadata \<Rightarrow>
             (let (calls, m) = brokerTopicCounts env metadata
              in (DescribeCluster # calls,
                  Inr (map (to_broker env metadata m)
                         (zip [0 ..< length (brokers metadata)] (brokers metadata)))))))"

subsection \<open>getTopics and getTopicDetails\<close>

datatype TopicStatus = active | deleting | error

record TopicMetrics =
  messageCount :: int
  sizeBytes :: int
  consumerLag :: int

record KafkaTopic =
  topic_name :: string
  topic_partitions :: int
  topic_replicationFactor :: int
  topic_config :: "string \<rightharpoonup> string"
  topic_metrics :: TopicMetrics
  topic_status :: TopicStatus

text \<open>\<open>topic.partitions[0]?.replicas?.length || 1\<close>\<close>

definition derived_replicationFactor :: "ITopicMetadata \<Rightarrow> int" where
  "derived_replicationFactor tp =
     (case partitions tp of
        [] \<Rightarrow> 1
      | p # _ \<Rightarrow> if length (replicas p) = 0 then 1 else int (length (replicas p)))"

text \<open>\<open>configEntries.reduce((acc, entry) => { acc[entry.configName] = entry.configValue; ... }, {})\<close>\<close>

definition entries_to_config :: "ConfigEntry list \<Rightarrow> (string \<rightharpoonup> string)" where
  "entries_to_config es = foldl (\<lambda>acc entry. acc(configName entry \<mapsto> configValue entry)) Map.empty es"

definition mock_topic_metrics :: "World \<Rightarrow> nat \<Rightarrow> TopicMetrics" where
  "mock_topic_metrics env k =
     \<lparr>messageCount = Math_floor (js_mul (random env (3 * k)) 100000),
      sizeBytes = Math_floor (js_mul (random env (3 * k + 1)) 1000000),
      consumerLag = Math_floor (js_mul (random env (3 * k + 2)) 1000)\<rparr>"

definition to_topic ::
  "World \<Rightarrow> (string \<rightharpoonup> string) \<Rightarrow> nat \<Rightarrow> ITopicMetadata \<Rightarrow> KafkaTopic" where
  "to_topic env cfg k tp =
     \<lparr>topic_name = name tp,
      topic_partitions = int (length (partitions tp)),
      topic_replicationFactor = derived_replicationFactor tp,
      topic_config = cfg,
      topic_metrics = mock_topic_metrics env k,
      topic_status = active\<rparr>"

text \<open>
  The best-effort configuration fetch of \<open>getTopics\<close>: a lookup object by topic name. The
  object is read as a finite map, which it is for every name that is not a member of
  \<open>Object.prototype\<close>; for a topic called \<open>constructor\<close> or \<open>toString\<close> the lookup
  \<open>topicConfigs[topic.name]\<close> finds the inherited member, so the \<open>config\<close> field of such a
  topic is not covered here. The other fields of the topic object do not read the lookup.
\<close>

definition topicConfigs ::
  "World \<Rightarrow> string list \<Rightarrow> (string \<rightharpoonup> (string \<rightharpoonup> string))" where
  "topicConfigs env topicNames =
     (case describeConfigs env topicNames of
        Inl configError \<Rightarrow> Map.empty
      | Inr resources \<Rightarrow>
          foldl (\<lambda>acc resource.
                   acc(resourceName resource \<mapsto> entries_to_config (configEntries resource)))
            Map.empty resources)"

definition getTopics :: "World \<Rightarrow> KafkaService \<Rightarrow> rpc list \<times> (thrown + KafkaTopic list)" where
  "getTopics env s =
     (if admin s = None \<or> \<not> isConnected s then ([], Inl not_connected)
      else
        (case listTopics env of
           Inl e \<Rightarrow> ([ListTopics], Inl (rethrow ''Failed to fetch topics: '' e))
         | Inr topicNames \<Rightarrow>
             if length topicNames = 0 then ([ListTopics], Inr [])
             else
               (case fetchTopicMetadata env topicNames of
                  Inl e \<Rightarrow>
                    ([ListTopics, FetchTopicMetadata topicNames],
                     Inl (rethrow ''Failed to fetch topics: '' e))
                | Inr topicDetails \<Rightarrow>
                    (let cfgs = topicConfigs env topicNames
                     in ([ListTopics, FetchTopicMetadata topicNames, DescribeConfigs topicNames],
                         Inr (map (\<lambda>(k, tp).
                                     to_topic env
                                       (case cfgs (name tp) of None \<Rightarrow> Map.empty | Some c \<Rightarrow> c)
                                       k tp)
                                (zip [0 ..< length topicDetails] topicDetails)))))))"

definition getTopicDetails ::
  "World \<Rightarrow> KafkaService \<Rightarrow> string \<Rightarrow> rpc list \<times> (thrown + KafkaTopic)" where
  "getTopicDetails env s topicName =
     (if admin s = None \<or> \<not> isConnected s then ([], Inl not_connected)
      else
        (case fetchTopicMetadata env [topicName] of
           Inl e \<Rightarrow>
             ([FetchTopicMetadata [topicName]],
              Inl (rethrow ''Failed to fetch topic details: '' e))
         | Inr [] \<Rightarrow>
             ([FetchTopicMetadata [topicName]],
              Inl (rethrow ''Failed to fetch topic details: ''
                     (Error (''Topic '' @ quoted topicName @ '' not found''))))
         | Inr (tp # _) \<Rightarrow>
             (let cfg = (case describeConfigs env [topicName] of
                           Inl configError \<Rightarrow> Map.empty
                         | Inr [] \<Rightarrow> Map.empty
                         | Inr (resource # _) \<Rightarrow> entries_to_config (configEntries resource))
              in ([FetchTopicMetadata [topicName], DescribeConfigs [topicName]],
                  Inr (to_topic env cfg 0 tp)))))"

subsection \<open>createTopic, deleteTopic, updateTopicConfig\<close>

text \<open>The pattern \<open>/^[a-zA-Z0-9._-]+$/\<close>.\<close>

definition name_char :: "char \<Rightarrow> bool" where
  "name_char c =
     (let n = (of_char c :: nat)
      in (97 \<le> n \<and> n \<le> 122) \<or> (65 \<le> n \<and> n \<le> 90) \<or> (48 \<le> n \<and> n \<le> 57)
         \<or> c = CHR ''.'' \<or> c = CHR ''_'' \<or> c = CHR ''-'')"

definition validNamePattern :: "string \<Rightarrow> bool" where
  "validNamePattern s = (s \<noteq> [] \<and> list_all name_char s)"

text \<open>
  The checks of \<open>createTopic\<close> before any call of the admin client; \<open>Some\<close> is the error
  thrown inside the \<open>try\<close>. The two counts of \<open>createTopic\<close> are integers, as its only
  caller, the \<open>POST\<close> handler, passes them after validation, and all four arguments are
  given (the defaults of the signature are for omitted ones).
\<close>

definition validate_topic_name :: "string \<Rightarrow> thrown option" where
  "validate_topic_name topicName =
     (if topicName = [] \<or> trim topicName = [] then
        Some (Error ''Topic name cannot be empty'')
      else if length topicName > 249 then
        Some (Error ''Topic name cannot exceed 249 characters'')
      else if \<not> validNamePattern topicName then
        Some (Error ''Topic name can only contain letters, numbers, dots, hyphens, and underscores'')
      else None)"

definition create_request ::
  "string \<Rightarrow> int \<Rightarrow> int \<Rightarrow> (string \<times> string) list \<Rightarrow> CreateTopicsOptions" where
  "create_request topicName partitions' replicationFactor' config =
     \<lparr>topics = [\<lparr>topic = topicName,
                  numPartitions = partitions',
                  replicationFactor = replicationFactor',
                  topicConfigEntries = config\<rparr>],
      validateOnly = False,
      waitForLeaders = True,
      timeout = 30000\<rparr>"

definition createTopic ::
  "World \<Rightarrow> KafkaService \<Rightarrow> string \<Rightarrow> int \<Rightarrow> int \<Rightarrow> (string \<times> string) list \<Rightarrow>
     rpc list \<times> thrown option" where
  "createTopic env s topicName partitions' replicationFactor' config =
     (if admin s = None \<or> \<not> isConnected s then ([], Some not_connected)
      else
        (case validate_topic_name topicName of
           Some e \<Rightarrow> ([], Some (rethrow ''Failed to create topic: '' e))
         | None \<Rightarrow>
             (case listTopics env of
                Inl e \<Rightarrow> ([ListTopics], Some (rethrow ''Failed to create topic: '' e))
              | Inr existingTopics \<Rightarrow>
                  if topicName \<in> set existingTopics then
                    ([ListTopics],
                     Some (rethrow ''Failed to create topic: ''
                             (Error (''Topic '' @ quoted topicName @ '' already exists''))))
                  else
                    (case describeCluster env of
                       Inl e \<Rightarrow>
                         ([ListTopics, DescribeCluster],
                          Some (rethrow ''Failed to create topic: '' e))
                     | Inr metadata \<Rightarrow>
                         if replicationFactor' > int (length (brokers metadata)) then
                           ([ListTopics, DescribeCluster],
                            Some (rethrow ''Failed to create topic: ''
                                    (Error (''Replication factor '' @ show_int replicationFactor'
                                            @ '' cannot exceed broker count ''
                                            @ show_int (int (length (brokers metadata)))))))
                         else
                           (let request =
                                  create_request topicName partitions' replicationFactor' config
                            in ([ListTopics, DescribeCluster, CreateTopics request],
                                map_option (rethrow ''Failed to create topic: '')
                                  (createTopics env request)))))))"

definition deleteTopic :: "World \<Rightarrow> KafkaService \<Rightarrow> string \<Rightarrow> rpc list \<times> thrown option" where
  "deleteTopic env s topicName =
     (if admin s = None \<or> \<not> isConnected s then ([], Some not_connected)
      else
        (case listTopics env of
           Inl e \<Rightarrow> ([ListTopics], Some (rethrow ''Failed to delete topic: '' e))
         | Inr existingTopics \<Rightarrow>
             if topicName \<notin> set existingTopics then
               ([ListTopics],
                Some (rethrow ''Failed to delete topic: ''
                        (Error (''Topic '' @ quoted topicName @ '' does not exist''))))
             else
               ([ListTopics, DeleteTopics [topicName] 30000],
                map_option (rethrow ''Failed to delete topic: '')
                  (deleteTopics env [topicName]))))"

definition updateTopicConfig ::
  "World \<Rightarrow> KafkaService \<Rightarrow> string \<Rightarrow> (string \<times> string) list \<Rightarrow>
     rpc list \<times> thrown option" where
  "updateTopicConfig env s topicName configUpdates =
     (if admin s = None \<or> \<not> isConnected s then ([], Some not_connected)
      else
        (case listTopics env of
           Inl e \<Rightarrow> ([ListTopics], Some (rethrow ''Failed to update topic configuration: '' e))
         | Inr existingTopics \<Rightarrow>
             if topicName \<notin> set existingTopics then
               ([ListTopics],
                Some (rethrow ''Failed to update topic configuration: ''
                        (Error (''Topic '' @ quoted topicName @ '' does not exist''))))
             else
               ([ListTopics, AlterConfigs topicName configUpdates],
                map_option (rethrow ''Failed to update topic configuration: '')
                  (alterConfigs env topicName configUpdates))))"

section \<open>Request handlers\<close>


subsection \<open>GET /api/kafka/cluster\<close>



subsection \<open>POST /api/kafka/topics\<close>

text \<open>
  The parsed request body is any JSON value; a number is a rational. An object is the list
  of its properties in the order JavaScript enumerates them, every key once and none of
  them \<open>__proto__\<close>; \<open>property v k\<close> is \<open>v[k]\<close>, with \<open>None\<close> for \<open>undefined\<close>.
\<close>

datatype json =
    JNull
  | JBool bool
  | JNumber rat
  | JString string
  | JArray "json list"
  | JObject "(string \<times> json) list"























section \<open>Notions used in the statements\<close>








text \<open>
  A returned topic object and the metadata entry it comes from: the same name, and the
  replication factor read off the first partition where there is one with replicas.
\<close>

definition replication_derived :: "KafkaTopic \<Rightarrow> ITopicMetadata \<Rightarrow> bool" where
  "replication_derived t tp =
     (topic_name t = name tp \<and>
      (if partitions tp \<noteq> [] \<and> replicas (hd (partitions tp)) \<noteq> []
       then topic_replicationFactor t = int (length (replicas (hd (partitions tp))))
       else topic_replicationFactor t = 1))"

text \<open>
  The doubles, as the set of rationals \<open>m \<sqdot> 2\<^sup>e\<close> with \<open>|m| < 2\<^sup>5\<^sup>3\<close> (the exponent range of the
  format is left out, see the section on numbers). \<open>nearest_double x y\<close> says that \<open>y\<close> is
  the double IEEE 754 prescribes for the real result \<open>x\<close> of an operation: no double is
  nearer to \<open>x\<close>, and where another double is as near, \<open>y\<close> is the one with the even
  significand. \<open>half_up y k\<close> says that \<open>k\<close> is the integer nearest to \<open>y\<close>, the upper one
  when \<open>y\<close> lies halfway between two.
\<close>

definition is_double :: "rat \<Rightarrow> bool" where
  "is_double y = (\<exists>m e. \<bar>m\<bar> < 2 ^ 53 \<and> y = of_int m * 2 powi e)"

definition even_significand :: "rat \<Rightarrow> bool" where
  "even_significand y =
     (\<exists>m e. even m \<and> 2 ^ 52 \<le> \<bar>m\<bar> \<and> \<bar>m\<bar> < 2 ^ 53 \<and> y = of_int m * 2 powi e)"

definition nearest_double :: "rat \<Rightarrow> rat \<Rightarrow> bool" where
  "nearest_double x y =
     (is_double y \<and>
      (\<forall>z. is_double z \<longrightarrow>
         \<bar>x - y\<bar> \<le> \<bar>x - z\<bar>
         \<and> (z \<noteq> y \<and> \<bar>x - z\<bar> = \<bar>x - y\<bar> \<longrightarrow> even_significand y)))"

definition half_up :: "rat \<Rightarrow> int \<Rightarrow> bool" where
  "half_up y k = (of_int k - 1 / 2 \<le> y \<and> y < of_int k + 1 / 2)"

text \<open>
  The estimate of the partition count from \<open>sampled\<close> partitions in the 50 sampled topics
  and \<open>n\<close> topics in all, in double arithmetic: the quotient by 50 is rounded to a double,
  its product with \<open>n\<close> is rounded to a double, and that is rounded to an integer.
\<close>

definition sampled_estimate :: "int \<Rightarrow> nat \<Rightarrow> int \<Rightarrow> bool" where
  "sampled_estimate sampled n k =
     (\<exists>q p. nearest_double (of_int sampled / 50) q
            \<and> nearest_double (q * of_nat n) p
            \<and> half_up p k)"

text \<open>
  The same estimate in exact arithmetic: the average of the sampled partition counts times
  the topic count, rounded to the nearest integer.
\<close>

definition exact_estimate :: "int \<Rightarrow> nat \<Rightarrow> int" where
  "exact_estimate sampled n = round (rat_of_int sampled / 50 * rat_of_nat n)"

section \<open>Example clusters\<close>

text \<open>
  Concrete worlds and service states at which the properties below are evaluated.
  \<open>quiet_world\<close> answers every call; its cluster has no broker and no topic. \<open>connected\<close>
  is the service after a successful \<open>connect\<close>.
\<close>

definition quiet_world :: World where
  "quiet_world =
     \<lparr>new_Kafka = None, kafka_admin = None, admin_connect = None, admin_disconnect = None,
      describeCluster = Inr \<lparr>brokers = [], controller = None, clusterId = ''demo''\<rparr>,
      listTopics = Inr [],
      listTopics_rejects_first = False,
      fetchTopicMetadata = (\<lambda>names. Inr []),
      describeConfigs = (\<lambda>names. Inr []),
      createTopics = (\<lambda>request. None),
      deleteTopics = (\<lambda>names. None),
      alterConfigs = (\<lambda>n updates. None),
      random = (\<lambda>k. 0),
      now = ''2025-01-01T00:00:00.000Z''\<rparr>"

definition demo_config :: KafkaConfig where
  "demo_config =
     \<lparr>clientId = Some ''kafka-ui'',
      config_brokers = BrokerList [''localhost:9092''],
      connectionTimeout = 10000,
      requestTimeout = 30000,
      retry = \<lparr>initialRetryTime = 100, retries = 8\<rparr>\<rparr>"

text \<open>The fields at \<open>await this.admin.connect()\<close> of a connect started in the initial state.\<close>

definition mid_connect :: "KafkaConfig \<Rightarrow> KafkaService" where
  "mid_connect config =
     initial\<lparr>connectionConfig := Some config, kafka := Some (Kafka config),
             admin := Some (Admin config)\<rparr>"

text \<open>
  The fields after a \<open>disconnect()\<close> that ran while such a connect was suspended, once
  the connect has resumed and set \<open>isConnected\<close>.
\<close>

definition overlapped :: KafkaService where
  "overlapped =
     \<lparr>kafka = None, admin = None, isConnected = True, connectionConfig = None\<rparr>"

definition connected :: KafkaService where
  "connected = snd (snd (connect quiet_world initial ''localhost:9092'' None))"

definition broker :: "int \<Rightarrow> BrokerMetadata" where
  "broker n = \<lparr>nodeId = n, host = ''localhost'', port = 9092 + n, rack = None\<rparr>"

definition refusing :: World where
  "refusing = quiet_world\<lparr>admin_connect := Some (Error ''connect ECONNREFUSED 127.0.0.1:9092''),
                           admin_disconnect := Some (Error ''socket closed'')\<rparr>"

definition two_brokers :: World where
  "two_brokers =
     quiet_world\<lparr>describeCluster :=
       Inr \<lparr>brokers = [broker 1, broker 2], controller = Some 2, clusterId = ''demo''\<rparr>\<rparr>"

definition three_brokers :: World where
  "three_brokers =
     quiet_world\<lparr>describeCluster :=
       Inr \<lparr>brokers = [broker 1, broker 2, broker 3], controller = Some 1, clusterId = ''demo''\<rparr>\<rparr>"

definition two_metadata :: ClusterMetadata where
  "two_metadata =
     \<lparr>brokers = [broker 1, broker 2], controller = Some 2, clusterId = ''demo''\<rparr>"

definition electing :: World where
  "electing =
     quiet_world\<lparr>describeCluster :=
       Inr \<lparr>brokers = [broker 1, broker 2], controller = Some (- 1), clusterId = ''demo''\<rparr>\<rparr>"


definition orders_metadata :: ITopicMetadata where
  "orders_metadata =
     \<lparr>name = ''orders'',
      partitions = [\<lparr>partitionId = 0, leader = 1, replicas = [1, 2], isr = [1, 2]\<rparr>,
                    \<lparr>partitionId = 1, leader = 2, replicas = [2, 1], isr = [2]\<rparr>]\<rparr>"

definition replicated :: World where
  "replicated =
     two_brokers\<lparr>listTopics := Inr [''orders''],
       fetchTopicMetadata := (\<lambda>names. Inr [orders_metadata])\<rparr>"

definition unassigned :: World where
  "unassigned =
     two_brokers\<lparr>listTopics := Inr [''orders''],
       fetchTopicMetadata := (\<lambda>names.
         Inr [\<lparr>name = ''orders'',
               partitions = [\<lparr>partitionId = 0, leader = - 1, replicas = [], isr = []\<rparr>]\<rparr>])\<rparr>"





definition three_partitions :: "string \<Rightarrow> ITopicMetadata" where
  "three_partitions n =
     \<lparr>name = n,
      partitions = map (\<lambda>k. \<lparr>partitionId = k, leader = 1, replicas = [1], isr = [1]\<rparr>)
                     [0, 1, 2]\<rparr>"

definition topic_names :: "string list" where
  "topic_names = map (\<lambda>k. ''topic-'' @ digits k) [0 ..< 120]"

definition large_cluster :: World where
  "large_cluster =
     three_brokers\<lparr>listTopics := Inr topic_names,
       fetchTopicMetadata := (\<lambda>names. Inr (map three_partitions names))\<rparr>"

text \<open>
  A cluster of 55 topics; of the 50 sampled ones the first 35 have two partitions and the
  other 15 have three, 115 in all.
\<close>

definition some_partitions :: "nat \<Rightarrow> PartitionMetadata list" where
  "some_partitions c =
     map (\<lambda>k. \<lparr>partitionId = int k, leader = 1, replicas = [1], isr = [1]\<rparr>) [0 ..< c]"

definition event_names :: "string list" where
  "event_names = map (\<lambda>k. ''events-'' @ digits k) [0 ..< 55]"

definition uneven_metadata :: "string list \<Rightarrow> ITopicMetadata list" where
  "uneven_metadata names =
     map (\<lambda>(k, n). \<lparr>name = n, partitions = some_partitions (if k < 35 then 2 else 3)\<rparr>)
       (zip [0 ..< length names] names)"

definition uneven :: World where
  "uneven =
     three_brokers\<lparr>listTopics := Inr event_names,
       fetchTopicMetadata := (\<lambda>names. Inr (uneven_metadata names))\<rparr>"

text \<open>A cluster whose topic list is served and whose topic metadata is not.\<close>

definition metadata_failing :: World where
  "metadata_failing =
     replicated\<lparr>fetchTopicMetadata := (\<lambda>names. Inl (Error ''Request timed out''))\<rparr>"

section \<open>Properties\<close>

subsection \<open>Connection state\<close>

text \<open>Whatever happens, \<open>disconnect\<close> leaves the four fields cleared.\<close>

lemma disconnect_state:
  "snd (disconnect env s) = initial"
  by (simp add: disconnect_def initial_def split: option.splits)

lemma disconnect_eq: "disconnect env s = (calls, s') \<Longrightarrow> s' = initial"
  using disconnect_state [of env s] by simp

text \<open>\<open>connectWithConfig\<close> ends either fully connected or fully cleared.\<close>

lemma connectWithConfig_state:
  "snd (snd (connectWithConfig env s config)) = initial \<or>
   snd (snd (connectWithConfig env s config)) =
     \<lparr>kafka = Some (Kafka config), admin = Some (Admin config), isConnected = True,
      connectionConfig = Some config\<rparr>"
  by (auto simp add: connectWithConfig_def connect_failed_def Let_def
        split: option.splits prod.splits dest: disconnect_eq)

text \<open>
  In every state the service can be seen in, the admin client is set only if the Kafka
  client is: \<open>this.admin\<close> is assigned right after \<open>this.kafka\<close>, and no block clears
  \<open>this.kafka\<close> without leaving \<open>this.admin\<close> cleared.
\<close>

lemma observable_invariant: "observable s \<Longrightarrow> kafka s = None \<longrightarrow> admin s = None"
  by (induction rule: observable.induct) (simp_all add: initial_def)

text \<open>The calls run to their end stay within these states.\<close>

lemma observable_disconnect: "observable s \<Longrightarrow> observable (snd (disconnect env s))"
  using observable_initial by (simp add: disconnect_state)

lemma observable_connectWithConfig:
  assumes "observable s"
  shows "observable (snd (snd (connectWithConfig env s config)))"
proof -
  have "observable (s\<lparr>connectionConfig := Some config, kafka := Some (Kafka config),
                      admin := Some (Admin config), isConnected := True\<rparr>)"
    using observable_connected [OF observable_connecting [OF assms, of config]] by simp
  moreover have "s\<lparr>connectionConfig := Some config, kafka := Some (Kafka config),
                   admin := Some (Admin config), isConnected := True\<rparr>
      = \<lparr>kafka = Some (Kafka config), admin = Some (Admin config), isConnected = True,
         connectionConfig = Some config\<rparr>"
    by simp
  ultimately show ?thesis
    using connectWithConfig_state [of env s config] observable_initial by auto
qed

text \<open>
  Two states in which \<open>isConnectionActive()\<close> is false that only suspended or overlapping
  calls show: at \<open>await this.admin.connect()\<close> of a first connect, and after a
  \<open>disconnect()\<close> that ran while a connect was suspended there and the connect then
  resumed.
\<close>

lemma observable_mid_connect: "observable (mid_connect config)"
  unfolding mid_connect_def by (rule observable_connecting [OF observable_initial])

lemma observable_overlapped: "observable overlapped"
proof -
  have "observable (mid_connect demo_config)"
    by (rule observable_mid_connect)
  then have "observable (mid_connect demo_config
                \<lparr>admin := None, kafka := None, isConnected := False,
                  connectionConfig := None\<rparr>)"
    by (rule observable_cleared)
  then have "observable (mid_connect demo_config
                \<lparr>admin := None, kafka := None, isConnected := False,
                  connectionConfig := None\<rparr>\<lparr>isConnected := True\<rparr>)"
    by (rule observable_connected)
  then show ?thesis
    by (simp add: overlapped_def mid_connect_def initial_def)
qed

lemma connected_fields:
  "admin connected \<noteq> None" "isConnected connected" "kafka connected \<noteq> None"
  by (simp_all add: connected_def connect_def connectWithConfig_def quiet_world_def initial_def Let_def)

text \<open>
  C6. After \<open>connect(bootstrapServers, clientId)\<close> followed by \<open>disconnect()\<close>,
  \<open>isConnectionActive()\<close> is false and \<open>getConnectionInfo()\<close> is null: from every state,
  whichever step of the connect attempt fails or none, and whether or not the close of the
  admin client throws during either disconnect.
\<close>

theorem disconnect_after_connect:
  "isConnectionActive (snd (disconnect env' (snd (snd (connect env s bootstrapServers cid))))) = False
   \<and> getConnectionInfo (snd (disconnect env' (snd (snd (connect env s bootstrapServers cid))))) = None"
  by (simp add: disconnect_state isConnectionActive_def getConnectionInfo_def initial_def)

theorem disconnect_after_connect_witness:
  "isConnectionActive
     (snd (disconnect refusing (snd (snd (connect refusing initial ''localhost:9092'' None)))))
     = False
   \<and> getConnectionInfo
     (snd (disconnect refusing (snd (snd (connect refusing initial ''localhost:9092'' None)))))
     = None"
  using disconnect_after_connect [of refusing refusing initial "''localhost:9092''" None]
  by simp

text \<open>
  C3. Each aggregation or command operation invoked while \<open>isConnectionActive()\<close> is false
  throws the not-connected error and calls no method of the admin client. This holds in
  every state in which the admin client is set only if the Kafka client is, hence in every
  state the service can be seen in (\<open>observable_invariant\<close>), those at an \<open>await\<close> and
  those left by overlapping calls included.
\<close>

theorem not_connected_guard:
  assumes "kafka s = None \<longrightarrow> admin s = None" and "\<not> isConnectionActive s"
  shows "getClusterOverview env s = ([], Inl not_connected)
       \<and> getBrokers env s = ([], Inl not_connected)
       \<and> getTopics env s = ([], Inl not_connected)
       \<and> getTopicDetails env s topicName = ([], Inl not_connected)
       \<and> createTopic env s topicName partitions' replicationFactor' config
            = ([], Some not_connected)
       \<and> deleteTopic env s topicName = ([], Some not_connected)
       \<and> updateTopicConfig env s topicName configUpdates = ([], Some not_connected)"
proof -
  from assms have guard: "admin s = None \<or> \<not> isConnected s"
    by (auto simp: isConnectionActive_def)
  then show ?thesis
    by (simp add: getClusterOverview_def getBrokers_def getTopics_def getTopicDetails_def
          createTopic_def deleteTopic_def updateTopicConfig_def)
qed

theorem not_connected_guard_witness:
  "observable (mid_connect demo_config)
   \<and> kafka (mid_connect demo_config) \<noteq> None
   \<and> admin (mid_connect demo_config) \<noteq> None
   \<and> \<not> isConnected (mid_connect demo_config)
   \<and> \<not> isConnectionActive (mid_connect demo_config)
   \<and> getTopics three_brokers (mid_connect demo_config)
        = ([], Inl (Error ''Not connected to Kafka cluster''))
   \<and> deleteTopic three_brokers (mid_connect demo_config) ''orders''
        = ([], Some (Error ''Not connected to Kafka cluster''))
   \<and> observable overlapped
   \<and> kafka overlapped = None
   \<and> admin overlapped = None
   \<and> isConnected overlapped
   \<and> \<not> isConnectionActive overlapped
   \<and> getBrokers three_brokers overlapped
        = ([], Inl (Error ''Not connected to Kafka cluster''))"
proof -
  have a: "kafka (mid_connect demo_config) = None \<longrightarrow> admin (mid_connect demo_config) = None"
    by (rule observable_invariant [OF observable_mid_connect])
  have b: "\<not> isConnectionActive (mid_connect demo_config)"
    by (simp add: isConnectionActive_def mid_connect_def initial_def)
  have c: "kafka overlapped = None \<longrightarrow> admin overlapped = None"
    by (rule observable_invariant [OF observable_overlapped])
  have d: "\<not> isConnectionActive overlapped"
    by (simp add: isConnectionActive_def overlapped_def)
  from not_connected_guard [OF a b, of three_brokers "''orders''"]
       not_connected_guard [OF c d, of three_brokers]
       b d observable_mid_connect observable_overlapped
  show ?thesis
    by (simp add: not_connected_def mid_connect_def overlapped_def initial_def)
qed

subsection \<open>Cluster overview\<close>

lemma overview_quiet:
  "getClusterOverview quiet_world connected =
     ([DescribeCluster, ListTopics],
      Inr \<lparr>brokersOnline = 0, brokersTotal = 0, topicsCount = 0, partitionsCount = 0,
           consumerGroupsCount = 0, messagesPerSecond = 0, status = healthy\<rparr>)"
  by (simp add: getClusterOverview_def connected_fields quiet_world_def samplePartitions_def)

lemma overview_three_brokers:
  "getClusterOverview three_brokers connected =
     ([DescribeCluster, ListTopics],
      Inr \<lparr>brokersOnline = 3, brokersTotal = 3, topicsCount = 0, partitionsCount = 0,
           consumerGroupsCount = 0, messagesPerSecond = 0, status = healthy\<rparr>)"
  by (simp add: getClusterOverview_def connected_fields three_brokers_def quiet_world_def
        samplePartitions_def)

text \<open>
  C10. Every successful \<open>getClusterOverview()\<close> result has \<open>consumerGroupsCount = 0\<close> and
  \<open>messagesPerSecond = 0\<close>.
\<close>

theorem overview_constants:
  "getClusterOverview env s = (calls, Inr ov) \<Longrightarrow>
     consumerGroupsCount ov = 0 \<and> messagesPerSecond ov = 0"
  by (auto simp: getClusterOverview_def Let_def split: if_splits sum.splits prod.splits)

theorem overview_constants_witness:
  "getClusterOverview quiet_world connected =
     ([DescribeCluster, ListTopics],
      Inr \<lparr>brokersOnline = 0, brokersTotal = 0, topicsCount = 0, partitionsCount = 0,
           consumerGroupsCount = 0, messagesPerSecond = 0, status = healthy\<rparr>)
   \<and> consumerGroupsCount \<lparr>brokersOnline = 0, brokersTotal = 0, topicsCount = 0,
        partitionsCount = 0, consumerGroupsCount = 0, messagesPerSecond = 0,
        status = healthy\<rparr> = 0"
  using overview_constants [OF overview_quiet] overview_quiet by simp

text \<open>
  C1, as stated, asks that a result with \<open>brokersTotal = 0\<close> is not \<open>healthy\<close>. On a
  cluster whose \<open>describeCluster\<close> lists no broker the overview is \<open>healthy\<close> with
  \<open>brokersTotal = 0\<close>.
\<close>

theorem overview_status_counterexample:
  "getClusterOverview quiet_world connected =
     ([DescribeCluster, ListTopics],
      Inr \<lparr>brokersOnline = 0, brokersTotal = 0, topicsCount = 0, partitionsCount = 0,
           consumerGroupsCount = 0, messagesPerSecond = 0, status = healthy\<rparr>)"
  by (rule overview_quiet)

text \<open>
  C1, amended. In every successful \<open>getClusterOverview()\<close> result, \<open>status\<close> is \<open>healthy\<close>
  exactly when \<open>brokersOnline\<close> equals \<open>brokersTotal\<close>; the two are always equal, so the
  status is always \<open>healthy\<close>, also when \<open>brokersTotal = 0\<close>.
\<close>

theorem overview_status:
  "getClusterOverview env s = (calls, Inr ov) \<Longrightarrow>
     (status ov = healthy) = (brokersOnline ov = brokersTotal ov) \<and> status ov = healthy"
  by (auto simp: getClusterOverview_def Let_def split: if_splits sum.splits prod.splits)

theorem overview_status_witness:
  "getClusterOverview three_brokers connected =
     ([DescribeCluster, ListTopics],
      Inr \<lparr>brokersOnline = 3, brokersTotal = 3, topicsCount = 0, partitionsCount = 0,
           consumerGroupsCount = 0, messagesPerSecond = 0, status = healthy\<rparr>)
   \<and> status \<lparr>brokersOnline = 3, brokersTotal = 3, topicsCount = 0, partitionsCount = 0,
           consumerGroupsCount = 0, messagesPerSecond = 0, status = healthy\<rparr> = healthy"
  using overview_status [OF overview_three_brokers] overview_three_brokers by simp

subsection \<open>Rounding to a double\<close>

text \<open>
  The rounding \<open>fl\<close> of the section on numbers is computed from the bit length of its
  argument. What it computes is the double nearest to its argument, the one with the even
  significand on a tie (\<open>fl_nearest\<close>), and there is only one such double
  (\<open>nearest_double_unique\<close>).
\<close>

lemma pow2_powi: "pow2 k = 2 powi k"
proof (cases "0 \<le> k")
  case True
  then show ?thesis by (simp add: pow2_def power_int_def)
next
  case False
  then show ?thesis
    by (simp add: pow2_def power_int_def power_one_over)
qed

lemma bitlen_bounds: "0 < n \<Longrightarrow> 2 ^ bitlen n \<le> 2 * n \<and> n < 2 ^ bitlen n"
proof (induction n rule: bitlen.induct)
  case (1 n)
  show ?case
  proof (cases "n div 2 = 0")
    case True
    with "1.prems" have "n = 1" by presburger
    then show ?thesis by (simp add: bitlen.simps)
  next
    case False
    with "1.prems" have pos: "0 < n div 2" by presburger
    with "1.prems" "1.IH" have ih: "2 ^ bitlen (n div 2) \<le> 2 * (n div 2)"
      "n div 2 < 2 ^ bitlen (n div 2)"
      by simp_all
    have b: "bitlen n = Suc (bitlen (n div 2))"
      using "1.prems" by (simp add: bitlen.simps [of n])
    have "2 * (n div 2) \<le> n" "n \<le> 2 * (n div 2) + 1"
      by presburger+
    with ih show ?thesis
      unfolding b by simp
  qed
qed

lemma of_int_less_pow: "(m::int) < 2 ^ n \<Longrightarrow> (of_int m :: rat) < 2 ^ n"
proof -
  assume "m < 2 ^ n"
  then have "(of_int m :: rat) < of_int (2 ^ n)" by (simp only: of_int_less_iff)
  then show ?thesis by simp
qed

lemma of_int_le_pow: "(m::int) \<le> 2 ^ n \<Longrightarrow> (of_int m :: rat) \<le> 2 ^ n"
proof -
  assume "m \<le> 2 ^ n"
  then have "(of_int m :: rat) \<le> of_int (2 ^ n)" by (simp only: of_int_le_iff)
  then show ?thesis by simp
qed

lemma pow_le_of_int: "2 ^ n \<le> (m::int) \<Longrightarrow> 2 ^ n \<le> (of_int m :: rat)"
proof -
  assume "2 ^ n \<le> m"
  then have "(of_int (2 ^ n) :: rat) \<le> of_int m" by (simp only: of_int_le_iff)
  then show ?thesis by simp
qed

lemma binade_bounds:
  assumes "0 < a"
  shows "2 powi binade a \<le> a \<and> a < 2 powi (binade a + 1)"
proof -
  obtain p q where pq: "quotient_of a = (p, q)"
    by (cases "quotient_of a")
  then have q: "0 < q" and a: "a = of_int p / of_int q"
    by (rule quotient_of_denom_pos, rule quotient_of_div)
  with assms have p: "0 < p"
    by (simp add: zero_less_divide_iff)
  define d where "d = int (bitlen p) - int (bitlen q)"
  from bitlen_bounds [OF p] have ip: "2 ^ bitlen p \<le> 2 * p" "p < 2 ^ bitlen p"
    by simp_all
  from ip(1) have "(2::rat) ^ bitlen p \<le> of_int (2 * p)"
    by (rule pow_le_of_int)
  moreover from ip(2) have "of_int p < (2::rat) ^ bitlen p"
    by (rule of_int_less_pow)
  ultimately have bp: "(2::rat) ^ bitlen p \<le> 2 * of_int p" "of_int p < (2::rat) ^ bitlen p"
    by simp_all
  from bitlen_bounds [OF q] have iq: "2 ^ bitlen q \<le> 2 * q" "q < 2 ^ bitlen q"
    by simp_all
  from iq(1) have "(2::rat) ^ bitlen q \<le> of_int (2 * q)"
    by (rule pow_le_of_int)
  moreover from iq(2) have "of_int q < (2::rat) ^ bitlen q"
    by (rule of_int_less_pow)
  ultimately have bq: "(2::rat) ^ bitlen q \<le> 2 * of_int q" "of_int q < (2::rat) ^ bitlen q"
    by simp_all
  have dq: "(2::rat) powi d = 2 ^ bitlen p / 2 ^ bitlen q"
    unfolding d_def by (simp add: power_int_diff)
  have qpos: "(0::rat) < of_int q" using q by simp
  have lower: "2 powi (d - 1) < a"
  proof -
    have "(2::rat) powi (d - 1) = 2 ^ bitlen p / (2 * 2 ^ bitlen q)"
      by (simp add: power_int_diff dq)
    also have "\<dots> \<le> of_int p / 2 ^ bitlen q"
      using bp(1) by (simp add: field_simps)
    also have "\<dots> < of_int p / of_int q"
      using bq(2) qpos p by (simp add: frac_less2)
    finally show ?thesis by (simp add: a)
  qed
  have upper: "a < 2 powi (d + 1)"
  proof -
    have "a = of_int p / of_int q" by (rule a)
    also have "\<dots> < 2 ^ bitlen p / of_int q"
      using bp(2) qpos by (simp add: divide_strict_right_mono)
    also have "\<dots> \<le> 2 ^ bitlen p / (2 ^ bitlen q / 2)"
      using bq(1) qpos by (intro divide_left_mono) (simp_all add: field_simps)
    also have "\<dots> = 2 powi (d + 1)"
      by (simp add: power_int_add dq)
    finally show ?thesis .
  qed
  have b: "binade a = (if 2 powi d \<le> a then d else d - 1)"
    by (simp add: binade_def pq d_def pow2_powi Let_def)
  show ?thesis
  proof (cases "2 powi d \<le> a")
    case True
    with b upper show ?thesis by simp
  next
    case False
    with b lower show ?thesis by simp
  qed
qed

lemma rne_floor:
  obtains f where "of_int f \<le> r" and "r < of_int f + 1"
    and "rne r = (if r - of_int f < 1 / 2 then f
                  else if 1 / 2 < r - of_int f then f + 1
                  else if even f then f else f + 1)"
proof
  show "of_int \<lfloor>r\<rfloor> \<le> r" "r < of_int \<lfloor>r\<rfloor> + 1"
    by linarith+
  show "rne r = (if r - of_int \<lfloor>r\<rfloor> < 1 / 2 then \<lfloor>r\<rfloor>
                  else if 1 / 2 < r - of_int \<lfloor>r\<rfloor> then \<lfloor>r\<rfloor> + 1
                  else if even \<lfloor>r\<rfloor> then \<lfloor>r\<rfloor> else \<lfloor>r\<rfloor> + 1)"
    by (simp add: rne_def Let_def)
qed

lemma rne_near: "\<bar>r - of_int (rne r)\<bar> \<le> 1 / 2"
proof -
  obtain f where "of_int f \<le> r" "r < of_int f + 1"
    and "rne r = (if r - of_int f < 1 / 2 then f
                  else if 1 / 2 < r - of_int f then f + 1
                  else if even f then f else f + 1)"
    by (rule rne_floor)
  then show ?thesis
    by (auto simp: abs_if)
qed

lemma int_gap: "(k::int) \<noteq> m \<Longrightarrow> 1 \<le> \<bar>(of_int k :: rat) - of_int m\<bar>"
proof -
  assume "k \<noteq> m"
  then have "1 \<le> \<bar>k - m\<bar>" by simp
  then have "(1::rat) \<le> of_int \<bar>k - m\<bar>" by (simp only: of_int_1_le_iff)
  then show ?thesis by simp
qed

lemma rne_nearest: "\<bar>r - of_int (rne r)\<bar> \<le> \<bar>r - of_int k\<bar>"
proof (cases "k = rne r")
  case True
  then show ?thesis by simp
next
  case False
  from int_gap [OF False]
  have "1 \<le> \<bar>r - of_int k\<bar> + \<bar>r - of_int (rne r)\<bar>"
    by linarith
  with rne_near [of r] show ?thesis
    by linarith
qed

lemma rne_tie:
  assumes "k \<noteq> rne r" and "\<bar>r - of_int k\<bar> = \<bar>r - of_int (rne r)\<bar>"
  shows "even (rne r)"
proof -
  from int_gap [OF assms(1)]
  have "1 \<le> \<bar>r - of_int k\<bar> + \<bar>r - of_int (rne r)\<bar>"
    by linarith
  with assms(2) rne_near [of r] have half: "\<bar>r - of_int (rne r)\<bar> = 1 / 2"
    by linarith
  obtain f where f: "of_int f \<le> r" "r < of_int f + 1"
    and r: "rne r = (if r - of_int f < 1 / 2 then f
                  else if 1 / 2 < r - of_int f then f + 1
                  else if even f then f else f + 1)"
    by (rule rne_floor)
  show ?thesis
  proof (cases "r - of_int f < 1 / 2")
    case True
    with r half f show ?thesis by (simp add: abs_if split: if_splits)
  next
    case False
    note nl = this
    show ?thesis
    proof (cases "1 / 2 < r - of_int f")
      case True
      with r nl half f show ?thesis by (simp add: abs_if split: if_splits)
    next
      case False
      with r nl show ?thesis by (cases "even f") simp_all
    qed
  qed
qed

lemma candidate_below:
  fixes x z A :: rat
  assumes "z \<le> A" and "A \<le> x"
  shows "\<bar>x - A\<bar> \<le> \<bar>x - z\<bar> \<and> (\<bar>x - A\<bar> = \<bar>x - z\<bar> \<longrightarrow> z = A)"
  using assms by linarith

lemma candidate_above:
  fixes x z B :: rat
  assumes "B \<le> z" and "x < B"
  shows "\<bar>x - B\<bar> \<le> \<bar>x - z\<bar> \<and> (\<bar>x - B\<bar> = \<bar>x - z\<bar> \<longrightarrow> z = B)"
  using assms by linarith

lemma double_multiple:
  fixes P :: rat and e :: int
  assumes P: "P = 2 powi e" and z: "is_double z" and lo: "2 ^ 52 * P < z"
  shows "\<exists>k. z = of_int k * P"
proof -
  have Ppos: "0 < P" by (simp add: P)
  from z obtain m' e' where m': "\<bar>m'\<bar> < 2 ^ 53" and zm: "z = of_int m' * 2 powi e'"
    by (auto simp: is_double_def)
  have e'pos: "(0::rat) < 2 powi e'" by simp
  have "0 < 2 ^ 52 * P" using Ppos by simp
  with lo have zpos: "0 < z" by linarith
  then have "0 < (of_int m' :: rat)"
    using e'pos zm by (simp add: zero_less_mult_iff)
  then have m'pos: "0 < m'" by simp
  with m' have "m' < 2 ^ 53" by simp
  then have m'53: "(of_int m' :: rat) < 2 ^ 53" by (rule of_int_less_pow)
  have ge: "e \<le> e'"
  proof (rule ccontr)
    assume "\<not> e \<le> e'"
    then have "e' \<le> e - 1" by simp
    then have "(2::rat) powi e' \<le> 2 powi (e - 1)"
      by (intro power_int_increasing) simp_all
    also have "\<dots> = P / 2"
      by (simp add: P power_int_diff)
    finally have h: "2 powi e' \<le> P / 2" .
    have "of_int m' * 2 powi e' \<le> of_int m' * (P / 2)"
      using h m'pos by (simp add: mult_left_mono)
    also have "\<dots> < 2 ^ 53 * (P / 2)"
      using m'53 Ppos by (intro mult_strict_right_mono) simp_all
    also have "\<dots> = 2 ^ 52 * P" by simp
    finally have "z < 2 ^ 52 * P"
      by (simp only: zm)
    with lo show False by simp
  qed
  have "(2::rat) powi e' = 2 powi (e' - e) * 2 powi e"
    by (simp flip: power_int_add)
  also have "(2::rat) powi (e' - e) = 2 ^ nat (e' - e)"
    using ge by (simp add: power_int_def)
  finally have "z = of_int (m' * 2 ^ nat (e' - e)) * P"
    by (simp add: zm P)
  then show ?thesis ..
qed

lemma scaled_candidate:
  fixes P :: rat and e :: int
  assumes P: "P = 2 powi e" and z: "is_double z"
    and lo: "2 ^ 52 * P \<le> x" and hi: "x < 2 ^ 53 * P"
  shows "\<exists>k. \<bar>x - of_int k * P\<bar> \<le> \<bar>x - z\<bar>
            \<and> (\<bar>x - of_int k * P\<bar> = \<bar>x - z\<bar> \<longrightarrow> z = of_int k * P)"
proof -
  have c52: "(of_int (2 ^ 52) :: rat) * P = 2 ^ 52 * P"
    and c53: "(of_int (2 ^ 53) :: rat) * P = 2 ^ 53 * P"
    by simp_all
  consider "z \<le> 2 ^ 52 * P" | "2 ^ 53 * P \<le> z" | "2 ^ 52 * P < z" "z < 2 ^ 53 * P"
    by linarith
  then show ?thesis
  proof cases
    case 1
    from candidate_below [OF 1 lo] show ?thesis
      unfolding c52 [symmetric] by (rule exI)
  next
    case 2
    from candidate_above [OF 2 hi] show ?thesis
      unfolding c53 [symmetric] by (rule exI)
  next
    case 3
    from double_multiple [OF P z 3(1)] obtain k where "z = of_int k * P" ..
    then have "\<bar>x - of_int k * P\<bar> \<le> \<bar>x - z\<bar>
            \<and> (\<bar>x - of_int k * P\<bar> = \<bar>x - z\<bar> \<longrightarrow> z = of_int k * P)"
      by simp
    then show ?thesis ..
  qed
qed

lemma fl_pos:
  "0 < x \<Longrightarrow>
     fl x = of_int (rne (x / 2 powi (binade x - 52))) * 2 powi (binade x - 52)"
  by (simp add: fl_def Let_def pow2_powi)

lemma binade_scaled:
  assumes "0 < x"
  shows "2 ^ 52 * 2 powi (binade x - 52) \<le> x \<and> x < 2 ^ 53 * 2 powi (binade x - 52)"
proof -
  define e where "e = binade x - 52"
  have split: "(2::rat) powi (int n + e) = 2 ^ n * 2 powi e" for n :: nat
  proof -
    have "(2::rat) powi (int n + e) = 2 powi int n * 2 powi e"
      by (rule power_int_add) simp
    then show ?thesis by simp
  qed
  have "binade x = int 52 + e" "binade x + 1 = int 53 + e"
    by (simp_all add: e_def)
  then have "(2::rat) powi binade x = 2 ^ 52 * 2 powi e"
    and "(2::rat) powi (binade x + 1) = 2 ^ 53 * 2 powi e"
    by (simp_all only: split)
  with binade_bounds [OF assms] show ?thesis
    unfolding e_def by simp
qed

lemma rne_range:
  assumes lo: "2 ^ n \<le> t" and hi: "t < 2 ^ Suc n"
  shows "2 ^ n \<le> rne t \<and> rne t \<le> 2 ^ Suc n"
proof (intro conjI)
  show "2 ^ n \<le> rne t"
  proof (rule ccontr)
    assume "\<not> 2 ^ n \<le> rne t"
    then have "rne t + 1 \<le> 2 ^ n" by simp
    then have "(of_int (rne t + 1) :: rat) \<le> 2 ^ n" by (rule of_int_le_pow)
    then have "(of_int (rne t) :: rat) + 1 \<le> 2 ^ n" by simp
    with lo have "\<bar>t - 2 ^ n\<bar> < \<bar>t - of_int (rne t)\<bar>"
      by linarith
    moreover have "\<bar>t - of_int (rne t)\<bar> \<le> \<bar>t - of_int (2 ^ n)\<bar>"
      by (rule rne_nearest)
    ultimately show False by simp
  qed
  show "rne t \<le> 2 ^ Suc n"
  proof (rule ccontr)
    assume "\<not> rne t \<le> 2 ^ Suc n"
    then have "2 ^ Suc n \<le> rne t - 1" by simp
    then have "2 ^ Suc n \<le> (of_int (rne t - 1) :: rat)" by (rule pow_le_of_int)
    then have "(2 ^ Suc n :: rat) + 1 \<le> of_int (rne t)" by simp
    with hi have "\<bar>t - 2 ^ Suc n\<bar> < \<bar>t - of_int (rne t)\<bar>"
      by linarith
    moreover have "\<bar>t - of_int (rne t)\<bar> \<le> \<bar>t - of_int (2 ^ Suc n)\<bar>"
      by (rule rne_nearest)
    ultimately show False by simp
  qed
qed

lemma normalise:
  assumes lo: "2 ^ 52 \<le> m" and hi: "m \<le> (2::int) ^ 53"
  shows "\<exists>m' e'. (even m \<longrightarrow> even m') \<and> 2 ^ 52 \<le> \<bar>m'\<bar> \<and> \<bar>m'\<bar> < 2 ^ 53
            \<and> (of_int m :: rat) * 2 powi e = of_int m' * 2 powi e'"
proof (cases "m = 2 ^ 53")
  case True
  have "(2::rat) powi (e + 1) = 2 powi e * 2 powi 1"
    by (rule power_int_add) simp
  then have "(of_int m :: rat) * 2 powi e = of_int (2 ^ 52) * 2 powi (e + 1)"
    by (simp add: True)
  moreover have "even ((2::int) ^ 52)" "2 ^ 52 \<le> \<bar>(2::int) ^ 52\<bar>" "\<bar>(2::int) ^ 52\<bar> < 2 ^ 53"
    by simp_all
  ultimately show ?thesis by blast
next
  case False
  with lo hi have "2 ^ 52 \<le> \<bar>m\<bar>" "\<bar>m\<bar> < 2 ^ 53"
    by simp_all
  then show ?thesis by blast
qed

lemma fl_nearest:
  assumes "0 \<le> x"
  shows "nearest_double x (fl x)"
proof (cases "x = 0")
  case True
  have "is_double 0"
    unfolding is_double_def by (rule exI [of _ 0]) simp
  then show ?thesis
    by (simp add: True fl_def nearest_double_def)
next
  case False
  with assms have xpos: "0 < x" by simp
  define P :: rat where "P = 2 powi (binade x - 52)"
  define t where "t = x / P"
  define m where "m = rne t"
  have Ppos: "0 < P" by (simp add: P_def)
  have x: "x = t * P" using Ppos by (simp add: t_def)
  have y: "fl x = of_int m * P"
    unfolding m_def t_def P_def by (rule fl_pos [OF xpos])
  have scale: "\<bar>x - of_int k * P\<bar> = \<bar>t - of_int k\<bar> * P" for k :: int
  proof -
    have "x - of_int k * P = (t - of_int k) * P"
      by (simp add: x algebra_simps)
    then show ?thesis
      using Ppos by (simp add: abs_mult)
  qed
  from binade_scaled [OF xpos] have lo: "2 ^ 52 * P \<le> x" and hi: "x < 2 ^ 53 * P"
    by (simp_all add: P_def)
  have "2 ^ 52 \<le> t" and "t < 2 ^ Suc 52"
    using lo hi Ppos by (simp_all add: x)
  from rne_range [OF this] have mlo: "2 ^ 52 \<le> m" and mhi: "m \<le> 2 ^ 53"
    by (simp_all add: m_def)
  from normalise [OF mlo mhi, of "binade x - 52"] obtain m' e'
    where norm: "even m \<longrightarrow> even m'" "2 ^ 52 \<le> \<bar>m'\<bar>" "\<bar>m'\<bar> < 2 ^ 53"
      "fl x = of_int m' * 2 powi e'"
    unfolding y P_def by blast
  have dbl: "is_double (fl x)"
    unfolding is_double_def using norm(3,4) by blast
  have each: "\<bar>x - fl x\<bar> \<le> \<bar>x - z\<bar>
         \<and> (z \<noteq> fl x \<and> \<bar>x - z\<bar> = \<bar>x - fl x\<bar> \<longrightarrow> even_significand (fl x))"
    if z: "is_double z" for z
  proof -
    from scaled_candidate [OF P_def z lo hi] obtain k
      where k1: "\<bar>x - of_int k * P\<bar> \<le> \<bar>x - z\<bar>"
        and k2: "\<bar>x - of_int k * P\<bar> = \<bar>x - z\<bar> \<longrightarrow> z = of_int k * P"
      by blast
    have "\<bar>t - of_int m\<bar> \<le> \<bar>t - of_int k\<bar>"
      unfolding m_def by (rule rne_nearest)
    then have "\<bar>t - of_int m\<bar> * P \<le> \<bar>t - of_int k\<bar> * P"
      using Ppos by (simp only: mult_le_cancel_right_pos)
    then have near: "\<bar>x - fl x\<bar> \<le> \<bar>x - of_int k * P\<bar>"
      by (simp only: y scale)
    have "even_significand (fl x)" if ne: "z \<noteq> fl x" and tie: "\<bar>x - z\<bar> = \<bar>x - fl x\<bar>"
    proof -
      from near k1 tie have eq: "\<bar>x - of_int k * P\<bar> = \<bar>x - z\<bar>"
        by linarith
      with k2 have zk: "z = of_int k * P" by simp
      with ne have "k \<noteq> m" by (auto simp: y)
      moreover from eq tie have "\<bar>t - of_int k\<bar> * P = \<bar>t - of_int m\<bar> * P"
        by (simp only: y scale)
      then have "\<bar>t - of_int k\<bar> = \<bar>t - of_int (rne t)\<bar>"
        using Ppos by (simp add: m_def)
      ultimately have "even m"
        unfolding m_def by (rule rne_tie)
      with norm show ?thesis
        unfolding even_significand_def by blast
    qed
    with near k1 show ?thesis by linarith
  qed
  show ?thesis
    unfolding nearest_double_def using dbl each by blast
qed

lemma Math_round_half_up: "half_up x (Math_round x)"
  unfolding half_up_def Math_round_def by linarith


lemma pow2_pos: "0 < pow2 k"
  by (simp add: pow2_def)

lemma rne_nonneg: "0 \<le> r \<Longrightarrow> 0 \<le> rne r"
  by (simp add: rne_def Let_def)

lemma fl_nonneg: "0 \<le> x \<Longrightarrow> 0 \<le> fl x"
proof (cases "x = 0")
  case True
  then show ?thesis by (simp add: fl_def)
next
  case False
  assume "0 \<le> x"
  with False have pos: "0 < x" by simp
  have "0 \<le> \<bar>x\<bar> / pow2 (binade \<bar>x\<bar> - 52)"
    using pow2_pos [of "binade \<bar>x\<bar> - 52"] by simp
  then have "0 \<le> rne (\<bar>x\<bar> / pow2 (binade \<bar>x\<bar> - 52))"
    by (rule rne_nonneg)
  then have "0 \<le> (of_int (rne (\<bar>x\<bar> / pow2 (binade \<bar>x\<bar> - 52))) :: rat) * pow2 (binade \<bar>x\<bar> - 52)"
    using pow2_pos [of "binade \<bar>x\<bar> - 52"] by simp
  with pos False show ?thesis
    by (simp add: fl_def Let_def)
qed

lemma is_double_minus: "is_double z \<Longrightarrow> is_double (- z)"
proof -
  assume "is_double z"
  then obtain m e where "\<bar>m\<bar> < 2 ^ 53" and "z = of_int m * 2 powi e"
    by (auto simp: is_double_def)
  then have "\<bar>- m\<bar> < 2 ^ 53" and "- z = of_int (- m) * 2 powi e"
    by simp_all
  then show ?thesis
    unfolding is_double_def by blast
qed

lemma double_between_pos:
  fixes a b :: rat
  assumes a: "a = of_int m1 * 2 powi e1" and m1: "even m1" "2 ^ 52 \<le> m1" "m1 < 2 ^ 53"
    and b: "b = of_int m2 * 2 powi e2" and m2: "even m2" "2 ^ 52 \<le> m2" "m2 < 2 ^ 53"
    and lt: "a < b"
  shows "\<exists>z. is_double z \<and> a < z \<and> z < b"
proof -
  define z :: rat where "z = of_int (m1 + 1) * 2 powi e1"
  have P: "(0::rat) < 2 powi e1" and Q: "(0::rat) < 2 powi e2"
    by simp_all
  from m1 have "m1 + 1 < 2 ^ 53" "0 \<le> m1 + 1"
    by (simp_all, presburger)
  then have "\<bar>m1 + 1\<bar> < 2 ^ 53" by simp
  then have d: "is_double z"
    unfolding is_double_def z_def by blast
  have az: "a < z"
    using P by (simp add: a z_def)
  have zb: "z < b"
  proof (rule ccontr)
    assume "\<not> z < b"
    then have bz: "b \<le> z" by simp
    show False
    proof (cases "e1 \<le> e2")
      case True
      define k where "k = nat (e2 - e1)"
      have "(2::rat) powi e2 = 2 powi (e2 - e1) * 2 powi e1"
        by (simp flip: power_int_add)
      also have "(2::rat) powi (e2 - e1) = 2 ^ k"
        using True by (simp add: power_int_def k_def)
      finally have b': "b = of_int (m2 * 2 ^ k) * 2 powi e1"
        by (simp add: b)
      from lt have "(of_int m1 :: rat) * 2 powi e1 < of_int (m2 * 2 ^ k) * 2 powi e1"
        by (simp only: a b')
      then have "(of_int m1 :: rat) < of_int (m2 * 2 ^ k)"
        using P by (simp only: mult_less_cancel_right_pos)
      then have one: "m1 < m2 * 2 ^ k"
        by (simp only: of_int_less_iff)
      from bz have "(of_int (m2 * 2 ^ k) :: rat) * 2 powi e1 \<le> of_int (m1 + 1) * 2 powi e1"
        by (simp only: z_def b')
      then have "(of_int (m2 * 2 ^ k) :: rat) \<le> of_int (m1 + 1)"
        using P by (simp only: mult_le_cancel_right_pos)
      then have two: "m2 * 2 ^ k \<le> m1 + 1"
        by (simp only: of_int_le_iff)
      from one two have "m2 * 2 ^ k = m1 + 1" by simp
      moreover have "even (m2 * 2 ^ k)" using m2(1) by simp
      moreover have "odd (m1 + 1)" using m1(1) by simp
      ultimately show False by simp
    next
      case False
      define k where "k = nat (e1 - e2 - 1)"
      have "(2::rat) powi e1 = 2 powi (e1 - e2) * 2 powi e2"
        by (simp flip: power_int_add)
      also have "(2::rat) powi (e1 - e2) = 2 ^ Suc k"
        using False by (simp add: power_int_def k_def Suc_nat_eq_nat_zadd1)
      finally have a': "a = of_int (m1 * 2 ^ Suc k) * 2 powi e2"
        by (simp add: a)
      from lt have "(of_int (m1 * 2 ^ Suc k) :: rat) * 2 powi e2 < of_int m2 * 2 powi e2"
        by (simp only: a' b)
      then have "(of_int (m1 * 2 ^ Suc k) :: rat) < of_int m2"
        using Q by (simp only: mult_less_cancel_right_pos)
      then have one: "m1 * 2 ^ Suc k < m2"
        by (simp only: of_int_less_iff)
      have "(1::int) \<le> 2 ^ k" by simp
      then have "m1 * 2 \<le> m1 * 2 * 2 ^ k"
        using m1(2) by (simp add: mult_le_cancel_left)
      with one have "m1 * 2 < m2" by simp
      with m1(2) m2(3) show False by simp
    qed
  qed
  from d az zb show ?thesis by blast
qed

lemma double_between:
  assumes "even_significand a" and "even_significand b" and lt: "a < b"
  shows "\<exists>z. is_double z \<and> a < z \<and> z < b"
proof -
  from assms(1) obtain m1 e1 where m1: "even m1" "2 ^ 52 \<le> \<bar>m1\<bar>" "\<bar>m1\<bar> < 2 ^ 53"
    and a: "a = of_int m1 * 2 powi e1"
    by (auto simp: even_significand_def)
  from assms(2) obtain m2 e2 where m2: "even m2" "2 ^ 52 \<le> \<bar>m2\<bar>" "\<bar>m2\<bar> < 2 ^ 53"
    and b: "b = of_int m2 * 2 powi e2"
    by (auto simp: even_significand_def)
  have P: "(0::rat) < 2 powi e1" and Q: "(0::rat) < 2 powi e2"
    by simp_all
  have zero: "is_double 0"
    unfolding is_double_def by (rule exI [of _ 0]) simp
  consider "0 < m1" "0 < m2" | "m1 < 0" "0 < m2" | "0 < m1" "m2 < 0" | "m1 < 0" "m2 < 0"
    using m1(2) m2(2) by (cases "0 < m1"; cases "0 < m2") simp_all
  then show ?thesis
  proof cases
    case 1
    with m1 m2 have "2 ^ 52 \<le> m1" "m1 < 2 ^ 53" "2 ^ 52 \<le> m2" "m2 < 2 ^ 53"
      by simp_all
    with a m1(1) b m2(1) lt show ?thesis
      by (intro double_between_pos [of a m1 e1 b m2 e2])
  next
    case 2
    then have "a < 0" "0 < b"
      using P Q by (simp_all add: a b mult_less_0_iff zero_less_mult_iff)
    with zero show ?thesis by blast
  next
    case 3
    then have "0 < a" "b < 0"
      using P Q by (simp_all add: a b mult_less_0_iff zero_less_mult_iff)
    with lt show ?thesis by simp
  next
    case 4
    with m1 m2 have r: "2 ^ 52 \<le> - m2" "- m2 < 2 ^ 53" "2 ^ 52 \<le> - m1" "- m1 < 2 ^ 53"
      by simp_all
    have e: "even (- m2)" "even (- m1)"
      using m1(1) m2(1) by simp_all
    have "- b = of_int (- m2) * 2 powi e2" "- a = of_int (- m1) * 2 powi e1"
      by (simp_all add: a b)
    moreover from lt have "- b < - a" by simp
    ultimately have "\<exists>z. is_double z \<and> - b < z \<and> z < - a"
      using e r by (intro double_between_pos [of "- b" "- m2" e2 "- a" "- m1" e1])
    then obtain z where "is_double z" "- b < z" "z < - a" by blast
    then have "is_double (- z)" "a < - z" "- z < b"
      by (simp_all add: is_double_minus)
    then show ?thesis by blast
  qed
qed

lemma nearest_double_unique:
  assumes y: "nearest_double x y" and y': "nearest_double x y'"
  shows "y = y'"
proof (rule ccontr)
  assume ne: "y \<noteq> y'"
  from y y' have d: "is_double y" "is_double y'"
    by (simp_all add: nearest_double_def)
  from y d(2) have "\<bar>x - y\<bar> \<le> \<bar>x - y'\<bar>"
    unfolding nearest_double_def by blast
  moreover from y' d(1) have "\<bar>x - y'\<bar> \<le> \<bar>x - y\<bar>"
    unfolding nearest_double_def by blast
  ultimately have eq: "\<bar>x - y'\<bar> = \<bar>x - y\<bar>" by simp
  from y d(2) ne eq have ev: "even_significand y"
    unfolding nearest_double_def by metis
  from y' d(1) ne eq have ev': "even_significand y'"
    unfolding nearest_double_def by metis
  have "\<exists>z. is_double z \<and> \<bar>x - z\<bar> < \<bar>x - y\<bar>"
  proof (cases "y < y'")
    case True
    from double_between [OF ev ev' True] obtain z where "is_double z" "y < z" "z < y'"
      by blast
    moreover from this eq have "\<bar>x - z\<bar> < \<bar>x - y\<bar>" by linarith
    ultimately show ?thesis by blast
  next
    case False
    with ne have "y' < y" by simp
    from double_between [OF ev' ev this] obtain z where "is_double z" "y' < z" "z < y"
      by blast
    moreover from this eq have "\<bar>x - z\<bar> < \<bar>x - y\<bar>" by linarith
    ultimately show ?thesis by blast
  qed
  then obtain z where "is_double z" "\<bar>x - z\<bar> < \<bar>x - y\<bar>" by blast
  moreover from y this(1) have "\<bar>x - y\<bar> \<le> \<bar>x - z\<bar>"
    unfolding nearest_double_def by blast
  ultimately show False by simp
qed

lemma half_up_unique:
  assumes "half_up p k" and "half_up p k'"
  shows "k = k'"
proof -
  from assms have "(of_int k :: rat) < of_int k' + 1" "(of_int k' :: rat) < of_int k + 1"
    by (simp_all add: half_up_def)
  then have "(of_int k :: rat) < of_int (k' + 1)" "(of_int k' :: rat) < of_int (k + 1)"
    by simp_all
  then have "k < k' + 1" "k' < k + 1"
    by (simp_all only: of_int_less_iff)
  then show ?thesis by simp
qed

lemma sampled_estimate_unique:
  assumes "sampled_estimate sampled n k" and "sampled_estimate sampled n k'"
  shows "k = k'"
proof -
  from assms(1) obtain q p where a: "nearest_double (of_int sampled / 50) q"
    "nearest_double (q * of_nat n) p" "half_up p k"
    unfolding sampled_estimate_def by blast
  from assms(2) obtain q' p' where b: "nearest_double (of_int sampled / 50) q'"
    "nearest_double (q' * of_nat n) p'" "half_up p' k'"
    unfolding sampled_estimate_def by blast
  from a(1) b(1) have "q = q'" by (rule nearest_double_unique)
  with a(2) b(2) have "p = p'" by (simp add: nearest_double_unique)
  with a(3) b(3) show ?thesis by (simp add: half_up_unique)
qed

text \<open>
  So the expression \<open>Math.round((partitionsCount / 50) * topics.length)\<close> yields the one
  integer that \<open>sampled_estimate\<close> describes.
\<close>

lemma estimate_sampled:
  assumes "0 \<le> sampled"
  shows "sampled_estimate sampled n
           (Math_round (js_mul (js_div (of_int sampled) 50) (of_nat n)))"
proof -
  have a: "(0::rat) \<le> of_int sampled / 50"
    using assms by simp
  then have q: "nearest_double (of_int sampled / 50) (js_div (of_int sampled) 50)"
    unfolding js_div_def by (rule fl_nearest)
  have "0 \<le> js_div (of_int sampled) 50"
    unfolding js_div_def using a by (rule fl_nonneg)
  then have "0 \<le> js_div (of_int sampled) 50 * of_nat n"
    by simp
  then have p: "nearest_double (js_div (of_int sampled) 50 * of_nat n)
                  (js_mul (js_div (of_int sampled) 50) (of_nat n))"
    unfolding js_mul_def by (rule fl_nearest)
  from q p Math_round_half_up show ?thesis
    unfolding sampled_estimate_def by blast
qed

text \<open>The double written \<open>0.7\<close>.\<close>

lemma fl_seven_tenths: "fl (7 / 10) = 3152519739159347 / 4503599627370496"
  by code_simp

subsection \<open>The partition count of the overview\<close>

lemma foldl_add_sum:
  "foldl (\<lambda>total t. total + f t) (a::int) ts = a + sum_list (map f ts)"
  by (induction ts arbitrary: a) simp_all

lemma count_partitions_sum:
  "count_partitions ts = (\<Sum>t\<leftarrow>ts. int (length (partitions t)))"
  by (simp add: count_partitions_def foldl_add_sum)

lemma count_partitions_nonneg: "0 \<le> count_partitions ts"
  unfolding count_partitions_sum by (induction ts) simp_all

lemma Math_round_nonneg: "0 \<le> x \<Longrightarrow> 0 \<le> Math_round x"
  by (simp add: Math_round_def)

lemma estimate_nonneg:
  "0 \<le> x \<Longrightarrow> 0 \<le> y \<Longrightarrow> 0 \<le> z \<Longrightarrow> 0 \<le> Math_round (js_mul (js_div x y) z)"
  by (simp add: Math_round_nonneg js_mul_def js_div_def fl_nonneg)

lemma samplePartitions_value:
  "snd (samplePartitions env tps) =
     (if tps = [] then 0
      else case fetchTopicMetadata env (take 50 tps) of
             Inl e \<Rightarrow> int (length tps) * 3
           | Inr topicMetadata \<Rightarrow>
               if length tps \<le> 50 then count_partitions topicMetadata
               else Math_round
                      (js_mul (js_div (of_int (count_partitions topicMetadata)) 50)
                         (of_nat (length tps))))"
  by (auto simp: samplePartitions_def Let_def min_def split: sum.splits)

lemma samplePartitions_nonneg: "0 \<le> snd (samplePartitions env tps)"
  by (auto simp: samplePartitions_def Let_def count_partitions_nonneg estimate_nonneg
        split: sum.splits)

lemma overview_partitions:
  assumes "getClusterOverview env s = (calls, Inr ov)" and "listTopics env = Inr tps"
  shows "partitionsCount ov = snd (samplePartitions env tps)"
  using assms
  by (auto simp: getClusterOverview_def Let_def split: if_splits sum.splits prod.splits)

lemma uneven_count: "count_partitions (uneven_metadata (take 50 event_names)) = 115"
  by code_simp

lemma uneven_length: "length event_names = 55"
  by (simp add: event_names_def)

lemma estimate_115_55: "Math_round (js_mul (js_div 115 50) 55) = 126"
  by code_simp

lemma exact_115_55: "exact_estimate 115 55 = 127"
  by (simp add: exact_estimate_def round_def)

lemma overview_uneven:
  "getClusterOverview uneven connected =
     ([DescribeCluster, ListTopics, FetchTopicMetadata (take 50 event_names)],
      Inr \<lparr>brokersOnline = 3, brokersTotal = 3, topicsCount = 55, partitionsCount = 126,
           consumerGroupsCount = 0, messagesPerSecond = 0, status = healthy\<rparr>)"
proof -
  have "event_names \<noteq> []"
    using uneven_length by auto
  then have "samplePartitions uneven event_names =
          ([FetchTopicMetadata (take 50 event_names)], 126)"
    using estimate_115_55 uneven_count
    by (simp add: samplePartitions_def Let_def uneven_length uneven_def)
  moreover have "describeCluster uneven
          = Inr \<lparr>brokers = [broker 1, broker 2, broker 3], controller = Some 1,
                 clusterId = ''demo''\<rparr>"
    and "listTopics uneven = Inr event_names"
    by (simp_all add: uneven_def three_brokers_def)
  ultimately show ?thesis
    by (simp add: getClusterOverview_def connected_fields uneven_length)
qed

text \<open>
  C7, as stated: above 50 topics \<open>partitionsCount\<close> would be the average of the sampled
  partition counts times the topic count, rounded. With 55 topics and 115 partitions in the
  50 sampled ones that product is 126.5 and its rounding 127; the service returns 126,
  because the double nearest to 115/50 lies below 2.3 and the product of that double with
  55 is rounded to the double just below 126.5.
\<close>

theorem partitions_count_counterexample:
  "listTopics uneven = Inr event_names
   \<and> length event_names = 55
   \<and> fetchTopicMetadata uneven (take 50 event_names)
        = Inr (uneven_metadata (take 50 event_names))
   \<and> count_partitions (uneven_metadata (take 50 event_names)) = 115
   \<and> exact_estimate 115 55 = 127
   \<and> getClusterOverview uneven connected =
     ([DescribeCluster, ListTopics, FetchTopicMetadata (take 50 event_names)],
      Inr \<lparr>brokersOnline = 3, brokersTotal = 3, topicsCount = 55, partitionsCount = 126,
           consumerGroupsCount = 0, messagesPerSecond = 0, status = healthy\<rparr>)"
  using overview_uneven uneven_count uneven_length exact_115_55
  by (simp add: uneven_def)

text \<open>
  C7, amended. In a successful \<open>getClusterOverview()\<close> result, \<open>partitionsCount\<close> is 0 when
  there is no topic; when the metadata fetch for the first 50 topics fails, it is three
  times the topic count; when the fetch succeeds and there are at most 50 topics, it is
  the sum of the partition counts of the fetched topics; and when there are more than 50,
  it is the estimate in double arithmetic: the sampled sum divided by 50 and rounded to
  the nearest double (ties to the even significand), multiplied by the topic count and
  rounded to the nearest double again, then rounded to the nearest integer (halves
  upwards). In every case it is not negative.
\<close>

theorem partitions_count:
  assumes "getClusterOverview env s = (calls, Inr ov)" and "listTopics env = Inr tps"
  shows "(tps = [] \<longrightarrow> partitionsCount ov = 0)
       \<and> (tps \<noteq> [] \<and> fetchTopicMetadata env (take 50 tps) = Inl e
            \<longrightarrow> partitionsCount ov = int (length tps) * 3)
       \<and> (tps \<noteq> [] \<and> length tps \<le> 50 \<and> fetchTopicMetadata env (take 50 tps) = Inr md
            \<longrightarrow> partitionsCount ov = (\<Sum>t\<leftarrow>md. int (length (partitions t))))
       \<and> (50 < length tps \<and> fetchTopicMetadata env (take 50 tps) = Inr md
            \<longrightarrow> sampled_estimate (\<Sum>t\<leftarrow>md. int (length (partitions t))) (length tps)
                  (partitionsCount ov))
       \<and> 0 \<le> partitionsCount ov"
proof -
  note pc = overview_partitions [OF assms]
  have one: "tps = [] \<longrightarrow> partitionsCount ov = 0"
    by (simp add: pc samplePartitions_value)
  have two: "tps \<noteq> [] \<and> fetchTopicMetadata env (take 50 tps) = Inl e
               \<longrightarrow> partitionsCount ov = int (length tps) * 3"
    by (simp add: pc samplePartitions_value)
  have three: "tps \<noteq> [] \<and> length tps \<le> 50 \<and> fetchTopicMetadata env (take 50 tps) = Inr md
               \<longrightarrow> partitionsCount ov = (\<Sum>t\<leftarrow>md. int (length (partitions t)))"
  proof
    assume h: "tps \<noteq> [] \<and> length tps \<le> 50 \<and> fetchTopicMetadata env (take 50 tps) = Inr md"
    then have "snd (samplePartitions env tps) = count_partitions md"
      by (simp only: samplePartitions_value) simp
    then show "partitionsCount ov = (\<Sum>t\<leftarrow>md. int (length (partitions t)))"
      by (simp only: pc count_partitions_sum)
  qed
  have four: "50 < length tps \<and> fetchTopicMetadata env (take 50 tps) = Inr md
               \<longrightarrow> sampled_estimate (\<Sum>t\<leftarrow>md. int (length (partitions t))) (length tps)
                     (partitionsCount ov)"
  proof
    assume h: "50 < length tps \<and> fetchTopicMetadata env (take 50 tps) = Inr md"
    then have "tps \<noteq> []" by auto
    with h have "snd (samplePartitions env tps) =
        Math_round (js_mul (js_div (of_int (count_partitions md)) 50) (of_nat (length tps)))"
      by (simp only: samplePartitions_value) simp
    then have "partitionsCount ov =
        Math_round (js_mul (js_div (of_int (count_partitions md)) 50) (of_nat (length tps)))"
      by (simp only: pc)
    moreover have "sampled_estimate (count_partitions md) (length tps)
        (Math_round (js_mul (js_div (of_int (count_partitions md)) 50) (of_nat (length tps))))"
      using count_partitions_nonneg by (rule estimate_sampled)
    ultimately show "sampled_estimate (\<Sum>t\<leftarrow>md. int (length (partitions t))) (length tps)
                     (partitionsCount ov)"
      by (simp only: count_partitions_sum)
  qed
  have five: "0 \<le> partitionsCount ov"
    using samplePartitions_nonneg [of env tps] by (simp only: pc)
  from one two three four five show ?thesis
    by blast
qed

text \<open>
  Where the quotient is a double and the product needs no rounding, the estimate is the
  exact one: 150 sampled partitions and 120 topics give 360. It is not in general: 35
  sampled partitions and 85 topics give 59, where the exact product is 59.5.
\<close>

lemma estimate_35_85: "Math_round (js_mul (js_div 35 50) 85) = 59"
  by code_simp

lemma estimate_150_120: "Math_round (js_mul (js_div 150 50) 120) = 360"
  by code_simp

text \<open>The estimate is a function of the two counts: 127 is not the estimate of 115 and 55.\<close>

lemma estimate_115_55_only: "sampled_estimate 115 55 k \<longleftrightarrow> k = 126"
proof
  assume "sampled_estimate 115 55 k"
  moreover have "sampled_estimate 115 55 126"
    using estimate_sampled [of 115 55] estimate_115_55 by simp
  ultimately show "k = 126" by (rule sampled_estimate_unique)
next
  assume "k = 126"
  then show "sampled_estimate 115 55 k"
    using estimate_sampled [of 115 55] estimate_115_55 by simp
qed

lemma length_topic_names: "length topic_names = 120"
  by (simp add: topic_names_def)

lemma three_partitions_count:
  "count_partitions (map three_partitions ns) = 3 * int (length ns)"
  unfolding count_partitions_sum
  by (induction ns) (simp_all add: three_partitions_def)

lemma sample_large:
  "samplePartitions large_cluster topic_names =
     ([FetchTopicMetadata (take 50 topic_names)], 360)"
proof -
  have "fetchTopicMetadata large_cluster (take 50 topic_names)
          = Inr (map three_partitions (take 50 topic_names))"
    by (simp add: large_cluster_def)
  moreover have "count_partitions (map three_partitions (take 50 topic_names)) = 150"
    by (simp add: three_partitions_count length_topic_names)
  moreover have "topic_names \<noteq> []"
    using length_topic_names by auto
  ultimately show ?thesis
    using estimate_150_120
    by (simp add: samplePartitions_def Let_def length_topic_names)
qed

lemma overview_large:
  "getClusterOverview large_cluster connected =
     ([DescribeCluster, ListTopics, FetchTopicMetadata (take 50 topic_names)],
      Inr \<lparr>brokersOnline = 3, brokersTotal = 3, topicsCount = 120, partitionsCount = 360,
           consumerGroupsCount = 0, messagesPerSecond = 0, status = healthy\<rparr>)"
proof -
  have "describeCluster large_cluster
          = Inr \<lparr>brokers = [broker 1, broker 2, broker 3], controller = Some 1,
                 clusterId = ''demo''\<rparr>"
    and "listTopics large_cluster = Inr topic_names"
    by (simp_all add: large_cluster_def three_brokers_def)
  then show ?thesis
    by (simp add: getClusterOverview_def connected_fields sample_large length_topic_names)
qed

lemma overview_replicated:
  "getClusterOverview replicated connected =
     ([DescribeCluster, ListTopics, FetchTopicMetadata [''orders'']],
      Inr \<lparr>brokersOnline = 2, brokersTotal = 2, topicsCount = 1, partitionsCount = 2,
           consumerGroupsCount = 0, messagesPerSecond = 0, status = healthy\<rparr>)"
  by (simp add: getClusterOverview_def connected_fields replicated_def two_brokers_def
        quiet_world_def samplePartitions_def count_partitions_def orders_metadata_def)

lemma overview_metadata_failing:
  "getClusterOverview metadata_failing connected =
     ([DescribeCluster, ListTopics, FetchTopicMetadata [''orders'']],
      Inr \<lparr>brokersOnline = 2, brokersTotal = 2, topicsCount = 1, partitionsCount = 3,
           consumerGroupsCount = 0, messagesPerSecond = 0, status = healthy\<rparr>)"
  by (simp add: getClusterOverview_def connected_fields metadata_failing_def replicated_def
        two_brokers_def quiet_world_def samplePartitions_def)

theorem partitions_count_witness:
  "(listTopics large_cluster = Inr topic_names
    \<and> length topic_names = 120
    \<and> fetchTopicMetadata large_cluster (take 50 topic_names)
         = Inr (map three_partitions (take 50 topic_names))
    \<and> (\<Sum>t\<leftarrow>map three_partitions (take 50 topic_names). int (length (partitions t))) = 150
    \<and> getClusterOverview large_cluster connected =
      ([DescribeCluster, ListTopics, FetchTopicMetadata (take 50 topic_names)],
       Inr \<lparr>brokersOnline = 3, brokersTotal = 3, topicsCount = 120, partitionsCount = 360,
            consumerGroupsCount = 0, messagesPerSecond = 0, status = healthy\<rparr>)
    \<and> sampled_estimate 150 120 360)
   \<and> (listTopics uneven = Inr event_names
    \<and> length event_names = 55
    \<and> fetchTopicMetadata uneven (take 50 event_names)
         = Inr (uneven_metadata (take 50 event_names))
    \<and> (\<Sum>t\<leftarrow>uneven_metadata (take 50 event_names). int (length (partitions t))) = 115
    \<and> getClusterOverview uneven connected =
      ([DescribeCluster, ListTopics, FetchTopicMetadata (take 50 event_names)],
       Inr \<lparr>brokersOnline = 3, brokersTotal = 3, topicsCount = 55, partitionsCount = 126,
            consumerGroupsCount = 0, messagesPerSecond = 0, status = healthy\<rparr>)
    \<and> sampled_estimate 115 55 126)
   \<and> (listTopics replicated = Inr [''orders'']
    \<and> fetchTopicMetadata replicated (take 50 [''orders'']) = Inr [orders_metadata]
    \<and> getClusterOverview replicated connected =
      ([DescribeCluster, ListTopics, FetchTopicMetadata [''orders'']],
       Inr \<lparr>brokersOnline = 2, brokersTotal = 2, topicsCount = 1, partitionsCount = 2,
            consumerGroupsCount = 0, messagesPerSecond = 0, status = healthy\<rparr>)
    \<and> (\<Sum>t\<leftarrow>[orders_metadata]. int (length (partitions t))) = 2)
   \<and> (listTopics metadata_failing = Inr [''orders'']
    \<and> fetchTopicMetadata metadata_failing (take 50 [''orders''])
         = Inl (Error ''Request timed out'')
    \<and> getClusterOverview metadata_failing connected =
      ([DescribeCluster, ListTopics, FetchTopicMetadata [''orders'']],
       Inr \<lparr>brokersOnline = 2, brokersTotal = 2, topicsCount = 1, partitionsCount = 3,
            consumerGroupsCount = 0, messagesPerSecond = 0, status = healthy\<rparr>))"
proof -
  have la: "listTopics large_cluster = Inr topic_names"
    and lb: "fetchTopicMetadata large_cluster (take 50 topic_names)
              = Inr (map three_partitions (take 50 topic_names))"
    by (simp_all add: large_cluster_def)
  have lc: "(\<Sum>t\<leftarrow>map three_partitions (take 50 topic_names). int (length (partitions t)))
              = 150"
    using three_partitions_count [of "take 50 topic_names"]
    by (simp only: count_partitions_sum length_take length_topic_names)
  have "50 < length topic_names"
    by (simp add: length_topic_names)
  with partitions_count [OF overview_large la,
         where md = "map three_partitions (take 50 topic_names)"] lb
  have "sampled_estimate
          (\<Sum>t\<leftarrow>map three_partitions (take 50 topic_names). int (length (partitions t)))
          (length topic_names) 360"
    by simp
  then have large: "sampled_estimate 150 120 360"
    by (simp only: lc length_topic_names)
  have ua: "listTopics uneven = Inr event_names"
    and ub: "fetchTopicMetadata uneven (take 50 event_names)
              = Inr (uneven_metadata (take 50 event_names))"
    by (simp_all add: uneven_def)
  have uc: "(\<Sum>t\<leftarrow>uneven_metadata (take 50 event_names). int (length (partitions t))) = 115"
    using uneven_count by (simp only: count_partitions_sum)
  have "50 < length event_names"
    by (simp add: uneven_length)
  with partitions_count [OF overview_uneven ua,
         where md = "uneven_metadata (take 50 event_names)"] ub
  have "sampled_estimate
          (\<Sum>t\<leftarrow>uneven_metadata (take 50 event_names). int (length (partitions t)))
          (length event_names) 126"
    by simp
  then have uneven: "sampled_estimate 115 55 126"
    by (simp only: uc uneven_length)
  have ra: "listTopics replicated = Inr [''orders'']"
    and rb: "fetchTopicMetadata replicated (take 50 [''orders'']) = Inr [orders_metadata]"
    by (simp_all add: replicated_def)
  from partitions_count [OF overview_replicated ra, where md = "[orders_metadata]"] rb
  have rc: "(\<Sum>t\<leftarrow>[orders_metadata]. int (length (partitions t))) = 2"
    by simp
  have fa: "listTopics metadata_failing = Inr [''orders'']"
    and fb: "fetchTopicMetadata metadata_failing (take 50 [''orders''])
              = Inl (Error ''Request timed out'')"
    by (simp_all add: metadata_failing_def replicated_def)
  show ?thesis
    by (intro conjI la lb lc length_topic_names overview_large large
          ua ub uc uneven_length overview_uneven uneven
          ra rb rc overview_replicated fa fb overview_metadata_failing)
qed

subsection \<open>The cluster route\<close>





subsection \<open>Brokers\<close>

lemma map_snd_zip_upt: "map snd (zip [0 ..< length xs] xs) = xs"
  by (simp add: map_snd_zip)

lemma getBrokers_flags:
  assumes "getBrokers env s = (calls, Inr bs)" and "describeCluster env = Inr metadata"
  shows "map isController bs = map (\<lambda>b. Some (nodeId b) = controller metadata) (brokers metadata)"
proof -
  obtain cs m where "brokerTopicCounts env metadata = (cs, m)"
    by (cases "brokerTopicCounts env metadata")
  with assms have "bs = map (to_broker env metadata m)
                     (zip [0 ..< length (brokers metadata)] (brokers metadata))"
    by (auto simp: getBrokers_def split: if_splits)
  then have "map isController bs
      = map ((\<lambda>b. Some (nodeId b) = controller metadata) \<circ> snd)
          (zip [0 ..< length (brokers metadata)] (brokers metadata))"
    by (auto simp: to_broker_def)
  also have "\<dots> = map (\<lambda>b. Some (nodeId b) = controller metadata)
                     (map snd (zip [0 ..< length (brokers metadata)] (brokers metadata)))"
    by (simp only: map_map)
  finally show ?thesis by (simp only: map_snd_zip_upt)
qed

lemma count_distinct_key:
  "distinct (map f xs) \<Longrightarrow>
     length (filter (\<lambda>x. f x = c) xs) = (if c \<in> f ` set xs then 1 else 0)"
  by (induction xs) auto

lemma length_filter_flags: "length (filter P xs) = length (filter id (map P xs))"
  by (induction xs) auto

lemma getBrokers_ids:
  assumes "getBrokers env s = (calls, Inr bs)" and "describeCluster env = Inr metadata"
  shows "map broker_id bs = map nodeId (brokers metadata)"
proof -
  obtain cs m where "brokerTopicCounts env metadata = (cs, m)"
    by (cases "brokerTopicCounts env metadata")
  with assms have "bs = map (to_broker env metadata m)
                     (zip [0 ..< length (brokers metadata)] (brokers metadata))"
    by (auto simp: getBrokers_def split: if_splits)
  then have "map broker_id bs
      = map (nodeId \<circ> snd) (zip [0 ..< length (brokers metadata)] (brokers metadata))"
    by (auto simp: to_broker_def)
  also have "\<dots> = map nodeId
                     (map snd (zip [0 ..< length (brokers metadata)] (brokers metadata)))"
    by (simp only: map_map)
  finally show ?thesis by (simp only: map_snd_zip_upt)
qed

lemma getBrokers_flag:
  assumes "getBrokers env s = (calls, Inr bs)" and "describeCluster env = Inr metadata"
    and "b \<in> set bs"
  shows "isController b = (Some (broker_id b) = controller metadata)"
proof -
  obtain cs m where "brokerTopicCounts env metadata = (cs, m)"
    by (cases "brokerTopicCounts env metadata")
  with assms(1,2) have "bs = map (to_broker env metadata m)
                     (zip [0 ..< length (brokers metadata)] (brokers metadata))"
    by (auto simp: getBrokers_def split: if_splits)
  with assms(3) obtain kb where "b = to_broker env metadata m kb"
    by auto
  then show ?thesis
    by (cases kb) (simp add: to_broker_def)
qed

text \<open>
  C8, amended. In every broker list \<open>getBrokers()\<close> returns, the ids are those of the
  brokers \<open>describeCluster\<close> reported, in the same order, and a broker has
  \<open>isController = true\<close> exactly when its id is the controller id \<open>describeCluster\<close>
  reported. So the number of flagged brokers is the number of entries of the broker list
  with that id: with distinct broker ids it is one when the reported controller is among
  the brokers and zero when it is not (or when no controller is reported).
\<close>

theorem controller_flags:
  assumes "getBrokers env s = (calls, Inr bs)" and "describeCluster env = Inr metadata"
  shows "map broker_id bs = map nodeId (brokers metadata)
       \<and> (\<forall>b \<in> set bs. isController b = (Some (broker_id b) = controller metadata))
       \<and> length (filter isController bs)
           = length (filter (\<lambda>b. Some (nodeId b) = controller metadata) (brokers metadata))
       \<and> (distinct (map nodeId (brokers metadata)) \<longrightarrow>
            length (filter isController bs)
              = (if controller metadata \<in> Some ` nodeId ` set (brokers metadata) then 1 else 0))"
proof -
  have flags: "map isController bs
                 = map (\<lambda>b. Some (nodeId b) = controller metadata) (brokers metadata)"
    by (rule getBrokers_flags [OF assms])
  have "length (filter isController bs) = length (filter id (map isController bs))"
    by (rule length_filter_flags)
  also have "\<dots> = length (filter id
                (map (\<lambda>b. Some (nodeId b) = controller metadata) (brokers metadata)))"
    by (simp only: flags)
  also have "\<dots> = length (filter (\<lambda>b. Some (nodeId b) = controller metadata)
                (brokers metadata))"
    by (rule length_filter_flags [symmetric])
  finally have eq: "length (filter isController bs)
           = length (filter (\<lambda>b. Some (nodeId b) = controller metadata) (brokers metadata))" .
  show ?thesis
  proof (intro conjI impI ballI)
    show "map broker_id bs = map nodeId (brokers metadata)"
      by (rule getBrokers_ids [OF assms])
  next
    fix b assume "b \<in> set bs"
    then show "isController b = (Some (broker_id b) = controller metadata)"
      by (rule getBrokers_flag [OF assms])
  next
    show "length (filter isController bs)
           = length (filter (\<lambda>b. Some (nodeId b) = controller metadata) (brokers metadata))"
      by (rule eq)
  next
    assume d: "distinct (map nodeId (brokers metadata))"
    then have "distinct (map (Some \<circ> nodeId) (brokers metadata))"
      by (simp add: distinct_map comp_inj_on_iff inj_on_def)
    from count_distinct_key [OF this, of "controller metadata"] eq
    show "length (filter isController bs)
            = (if controller metadata \<in> Some ` nodeId ` set (brokers metadata) then 1 else 0)"
      by (simp add: image_comp)
  qed
qed

lemma brokers_electing_flags:
  "map isController (projr (snd (getBrokers electing connected))) = [False, False]"
  by (simp add: getBrokers_def connected_fields electing_def quiet_world_def
        brokerTopicCounts_def to_broker_def broker_def upt_rec split: prod.splits)

text \<open>
  C8, as stated, asks for exactly one controller in every list. While the cluster has no
  elected controller (\<open>describeCluster\<close> reports the id \<open>-1\<close>), no broker is flagged.
\<close>

theorem controller_flags_counterexample:
  "map isController (projr (snd (getBrokers electing connected))) = [False, False]"
  by (rule brokers_electing_flags)

lemma brokers_two:
  "getBrokers two_brokers connected =
     ([DescribeCluster, ListTopics],
      Inr (map (to_broker two_brokers two_metadata Map.empty)
             (zip [0 ..< 2] [broker 1, broker 2])))"
  by (simp add: getBrokers_def connected_fields two_brokers_def quiet_world_def
        brokerTopicCounts_def two_metadata_def eval_nat_numeral)

theorem controller_flags_witness:
  "getBrokers two_brokers connected =
     ([DescribeCluster, ListTopics],
      Inr (map (to_broker two_brokers two_metadata Map.empty)
             (zip [0 ..< 2] [broker 1, broker 2])))
   \<and> describeCluster two_brokers = Inr two_metadata
   \<and> distinct (map nodeId (brokers two_metadata))
   \<and> controller two_metadata = Some 2
   \<and> map broker_id (map (to_broker two_brokers two_metadata Map.empty)
                       (zip [0 ..< 2] [broker 1, broker 2])) = [1, 2]
   \<and> map isController (map (to_broker two_brokers two_metadata Map.empty)
                          (zip [0 ..< 2] [broker 1, broker 2])) = [False, True]
   \<and> length (filter isController
         (map (to_broker two_brokers two_metadata Map.empty)
            (zip [0 ..< 2] [broker 1, broker 2]))) = 1"
proof -
  have a: "describeCluster two_brokers = Inr two_metadata"
    by (simp add: two_brokers_def quiet_world_def two_metadata_def)
  have d: "distinct (map nodeId (brokers two_metadata))"
    by (simp add: two_metadata_def broker_def)
  have c: "controller two_metadata \<in> Some ` nodeId ` set (brokers two_metadata)"
    by (simp add: two_metadata_def broker_def)
  have ids: "map nodeId (brokers two_metadata) = [1, 2]"
    and ctl: "controller two_metadata = Some 2"
    by (simp_all add: two_metadata_def broker_def)
  let ?bs = "map (to_broker two_brokers two_metadata Map.empty)
               (zip [0 ..< 2] [broker 1, broker 2])"
  note t = controller_flags [OF brokers_two a]
  from t ids have i: "map broker_id ?bs = [1, 2]"
    by simp
  from t have f: "\<forall>b \<in> set ?bs. isController b = (Some (broker_id b) = controller two_metadata)"
    by blast
  have "map isController ?bs = map (\<lambda>b. Some (broker_id b) = controller two_metadata) ?bs"
    using f by (simp only: map_eq_conv)
  also have "\<dots> = map (\<lambda>i. Some i = controller two_metadata) (map broker_id ?bs)"
    by (simp only: map_map comp_def)
  also have "\<dots> = [False, True]"
    by (simp only: i ctl) simp
  finally have flags: "map isController ?bs = [False, True]" .
  from t d c have "length (filter isController ?bs) = 1"
    by simp
  with brokers_two a d ctl i flags show ?thesis
    by (simp only: simp_thms)
qed

subsection \<open>Topics\<close>

lemma topics_unassigned:
  "map topic_replicationFactor (projr (snd (getTopics unassigned connected))) = [1]"
  by (simp add: getTopics_def connected_fields unassigned_def two_brokers_def quiet_world_def
        to_topic_def derived_replicationFactor_def upt_rec)

text \<open>
  C9, as stated, equates \<open>replicationFactor\<close> with the number of replicas of the first
  partition. For a topic whose first partition has an empty replica list that number is 0
  and the field is 1.
\<close>

theorem replication_factor_counterexample:
  "map topic_replicationFactor (projr (snd (getTopics unassigned connected))) = [1]
   \<and> map (map (length \<circ> replicas) \<circ> partitions)
         (projr (fetchTopicMetadata unassigned [''orders''])) = [ [0] ]"
  using topics_unassigned by (simp add: unassigned_def)

lemma derived_replicationFactor_derived:
  "replication_derived (to_topic env cfg k tp) tp"
  by (cases "partitions tp")
     (simp_all add: replication_derived_def to_topic_def derived_replicationFactor_def)

lemma list_all2_zip_upt:
  assumes "\<And>k x. P (f (k, x)) x"
  shows "list_all2 P (map f (zip [n ..< n + length xs] xs)) xs"
proof (induction xs arbitrary: n)
  case Nil
  then show ?case by simp
next
  case (Cons x xs)
  have "[n ..< n + length (x # xs)] = n # [Suc n ..< Suc n + length xs]"
    by (simp add: upt_rec)
  with Cons [of "Suc n"] assms show ?case by simp
qed

text \<open>
  C9, amended. Every topic object returned by \<open>getTopics()\<close> or \<open>getTopicDetails()\<close>
  comes from one entry of the fetched metadata, and its \<open>replicationFactor\<close> is the number
  of replicas of that topic's first partition when the topic has a partition and that
  partition a non-empty replica list, and 1 otherwise.
\<close>

theorem replication_factor_derivation:
  "(getTopics env s = (calls, Inr ts) \<and> listTopics env = Inr names
      \<and> fetchTopicMetadata env names = Inr md
    \<longrightarrow> (if names = [] then ts = [] else list_all2 replication_derived ts md))
   \<and> (getTopicDetails env s topicName = (calls', Inr t)
      \<and> fetchTopicMetadata env [topicName] = Inr md'
    \<longrightarrow> md' \<noteq> [] \<and> replication_derived t (hd md'))"
proof (intro conjI impI)
  assume h: "getTopics env s = (calls, Inr ts) \<and> listTopics env = Inr names
      \<and> fetchTopicMetadata env names = Inr md"
  show "if names = [] then ts = [] else list_all2 replication_derived ts md"
  proof (cases "names = []")
    case True
    with h show ?thesis by (auto simp: getTopics_def split: if_splits)
  next
    case False
    with h have "ts = map (\<lambda>(k, tp).
                     to_topic env
                       (case topicConfigs env names (name tp) of
                          None \<Rightarrow> Map.empty | Some c \<Rightarrow> c) k tp)
                   (zip [0 ..< 0 + length md] md)"
      by (auto simp: getTopics_def Let_def split: if_splits)
    moreover have "list_all2 replication_derived
                     (map (\<lambda>(k, tp).
                        to_topic env
                          (case topicConfigs env names (name tp) of
                             None \<Rightarrow> Map.empty | Some c \<Rightarrow> c) k tp)
                       (zip [0 ..< 0 + length md] md)) md"
      by (rule list_all2_zip_upt) (simp add: derived_replicationFactor_derived)
    ultimately show ?thesis using False by simp
  qed
next
  assume h: "getTopicDetails env s topicName = (calls', Inr t)
      \<and> fetchTopicMetadata env [topicName] = Inr md'"
  then show "md' \<noteq> []"
    by (auto simp: getTopicDetails_def split: if_splits)
next
  assume h: "getTopicDetails env s topicName = (calls', Inr t)
      \<and> fetchTopicMetadata env [topicName] = Inr md'"
  then show "replication_derived t (hd md')"
    by (cases md')
       (auto simp: getTopicDetails_def Let_def derived_replicationFactor_derived
          split: if_splits)
qed

lemma topics_replicated:
  "getTopics replicated connected =
     ([ListTopics, FetchTopicMetadata [''orders''], DescribeConfigs [''orders'']],
      Inr [to_topic replicated Map.empty 0 orders_metadata])"
  by (simp add: getTopics_def connected_fields replicated_def two_brokers_def quiet_world_def
        topicConfigs_def)

lemma details_replicated:
  "getTopicDetails replicated connected ''orders'' =
     ([FetchTopicMetadata [''orders''], DescribeConfigs [''orders'']],
      Inr (to_topic replicated Map.empty 0 orders_metadata))"
  by (simp add: getTopicDetails_def connected_fields replicated_def two_brokers_def
        quiet_world_def)

theorem replication_factor_derivation_witness:
  "getTopics replicated connected =
     ([ListTopics, FetchTopicMetadata [''orders''], DescribeConfigs [''orders'']],
      Inr [to_topic replicated Map.empty 0 orders_metadata])
   \<and> getTopicDetails replicated connected ''orders'' =
     ([FetchTopicMetadata [''orders''], DescribeConfigs [''orders'']],
      Inr (to_topic replicated Map.empty 0 orders_metadata))
   \<and> listTopics replicated = Inr [''orders'']
   \<and> fetchTopicMetadata replicated [''orders''] = Inr [orders_metadata]
   \<and> topic_replicationFactor (to_topic replicated Map.empty 0 orders_metadata) = 2"
proof -
  have a: "listTopics replicated = Inr [''orders'']"
    and b: "fetchTopicMetadata replicated [''orders''] = Inr [orders_metadata]"
    by (simp_all add: replicated_def)
  from replication_factor_derivation
         [of replicated connected _ "[to_topic replicated Map.empty 0 orders_metadata]"
            "[''orders'']" "[orders_metadata]" "''orders''" _
            "to_topic replicated Map.empty 0 orders_metadata" "[orders_metadata]"]
       topics_replicated details_replicated a b
  have "replication_derived (to_topic replicated Map.empty 0 orders_metadata) orders_metadata"
    by simp
  then have "topic_replicationFactor (to_topic replicated Map.empty 0 orders_metadata) = 2"
    by (simp add: replication_derived_def orders_metadata_def)
  with topics_replicated details_replicated a b show ?thesis by simp
qed

subsection \<open>Topic commands\<close>

text \<open>
  C5. A \<open>createTopic\<close> call whose replication factor is greater than the number of brokers
  \<open>describeCluster\<close> reports ends in an error, and no \<open>createTopics\<close> call is among the
  calls it made, whatever the partition count.
\<close>

theorem replication_factor_guard:
  assumes "describeCluster env = Inr metadata"
    and "replicationFactor' > int (length (brokers metadata))"
  shows "(\<exists>e. snd (createTopic env s topicName partitions' replicationFactor' config) = Some e)
       \<and> (\<forall>request. CreateTopics request
             \<notin> set (fst (createTopic env s topicName partitions' replicationFactor' config)))"
  using assms
  by (auto simp: createTopic_def Let_def split: option.splits sum.splits)

lemma create_two_brokers:
  "createTopic two_brokers connected ''orders'' 3 3 [] =
     ([ListTopics, DescribeCluster],
      Some (Error ''Failed to create topic: Replication factor 3 cannot exceed broker count 2''))"
  by (simp add: createTopic_def connected_fields two_brokers_def quiet_world_def
        validate_topic_name_def trim_def js_whitespace_def validNamePattern_def name_char_def
        rethrow_def show_int_def digits.simps digit_def broker_def quoted_def)

theorem replication_factor_guard_witness:
  "describeCluster two_brokers
     = Inr \<lparr>brokers = [broker 1, broker 2], controller = Some 2, clusterId = ''demo''\<rparr>
   \<and> (3::int) > int (length [broker 1, broker 2])
   \<and> createTopic two_brokers connected ''orders'' 3 3 [] =
     ([ListTopics, DescribeCluster],
      Some (Error ''Failed to create topic: Replication factor 3 cannot exceed broker count 2''))
   \<and> CreateTopics (create_request ''orders'' 3 3 [])
        \<notin> set (fst (createTopic two_brokers connected ''orders'' 3 3 []))"
proof -
  have a: "describeCluster two_brokers
     = Inr \<lparr>brokers = [broker 1, broker 2], controller = Some 2, clusterId = ''demo''\<rparr>"
    by (simp add: two_brokers_def quiet_world_def)
  have b: "(3::int) > int (length (brokers \<lparr>brokers = [broker 1, broker 2], controller = Some 2, clusterId = ''demo''\<rparr>))"
    by simp
  from replication_factor_guard [OF a b, of connected "''orders''" 3 "[]"] a create_two_brokers
  show ?thesis by simp
qed

subsection \<open>The create-topic route\<close>






















end
